theory Spec2Isabelle
  imports Complex_Main
begin

section \<open>The C++ code emitter of cody-pp (src/js/utils/blockly/cpp.js)\<close>

text \<open>
  The module extends a Blockly generator object with \<open>init\<close>, \<open>finish\<close>,
  \<open>scrubNakedValue\<close>, \<open>quote_\<close>, \<open>scrub_\<close> and \<open>getAdjusted\<close>. JavaScript strings
  are modelled as \<open>string\<close> (a list of characters), numbers that the module computes
  with as \<open>int\<close>, and the module-level fields as a state record that is passed in
  and returned.
\<close>

subsection \<open>Characters and string primitives of the language\<close>

definition NL :: char where
  "NL = CHR 0x0A"

definition BACKSLASH :: char where
  "BACKSLASH = CHR 0x5C"

definition APOSTROPHE :: char where
  "APOSTROPHE = CHR 0x27"

definition DOLLAR :: char where
  "DOLLAR = CHR 0x24"

text \<open>
  \<open>s.replace(/c/g, r)\<close> for a pattern that matches the single character \<open>c\<close> and a
  replacement text \<open>r\<close> without substitution patterns: every occurrence is replaced,
  left to right, and replaced text is not scanned again.
\<close>

fun replace_char :: "char \<Rightarrow> string \<Rightarrow> string \<Rightarrow> string" where
  "replace_char c r [] = []"
| "replace_char c r (x # xs) = (if x = c then r @ replace_char c r xs else x # replace_char c r xs)"

text \<open>\<open>Array.prototype.join\<close> on an array of strings.\<close>

fun join :: "string \<Rightarrow> string list \<Rightarrow> string" where
  "join sep [] = []"
| "join sep [x] = x"
| "join sep (x # y # ys) = x @ sep @ join sep (y # ys)"

subsection \<open>quote (the source's quote_)\<close>

text \<open>
  \<^verbatim>\<open>string.replace(/\\/g, '\\\\').replace(/\n/g, '\\\n')
        .replace(/\$/g, '\\$').replace(/'/g, '\\\'')\<close>
  and then a single quote on each side. The JavaScript literal \<^verbatim>\<open>'\\\n'\<close> is the
  two characters backslash and line feed; \<^verbatim>\<open>'\\$'\<close> is backslash and dollar (a
  dollar at the end of a replacement text stands for itself).
\<close>

definition quote :: "string \<Rightarrow> string" where
  "quote s =
     (let s1 = replace_char BACKSLASH [BACKSLASH, BACKSLASH] s;
          s2 = replace_char NL [BACKSLASH, NL] s1;
          s3 = replace_char DOLLAR [BACKSLASH, DOLLAR] s2;
          s4 = replace_char APOSTROPHE [BACKSLASH, APOSTROPHE] s3
      in [APOSTROPHE] @ s4 @ [APOSTROPHE])"

text \<open>What one character of the input becomes in the output of \<open>quote\<close>.\<close>

definition escape_char :: "char \<Rightarrow> string" where
  "escape_char c =
     (if c = BACKSLASH then [BACKSLASH, BACKSLASH]
      else if c = NL then [BACKSLASH, NL]
      else if c = DOLLAR then [BACKSLASH, DOLLAR]
      else if c = APOSTROPHE then [BACKSLASH, APOSTROPHE]
      else [c])"

text \<open>A text occurs in another one, as a run of consecutive characters.\<close>

fun starts_with :: "string \<Rightarrow> string \<Rightarrow> bool" where
  "starts_with [] s = True"
| "starts_with (p # ps) [] = False"
| "starts_with (p # ps) (x # xs) = (p = x \<and> starts_with ps xs)"

fun contains :: "string \<Rightarrow> string \<Rightarrow> bool" where
  "contains p [] = (p = [])"
| "contains p (x # xs) = (starts_with p (x # xs) \<or> contains p xs)"

subsection \<open>scrubNakedValue\<close>

definition scrubNakedValue :: "string \<Rightarrow> string" where
  "scrubNakedValue line = line @ CHR '';'' # [NL]"

subsection \<open>Numbers and their texts\<close>

text \<open>
  A character of the model is a code unit below 256. Among these, the white space
  that \<^verbatim>\<open>\s\<close> matches and that \<open>parseInt\<close> skips is tab, line feed, vertical tab, form
  feed, carriage return, space and the no-break space.
\<close>

definition is_space :: "char \<Rightarrow> bool" where
  "is_space c = (c = CHR 0x09 \<or> c = CHR 0x0A \<or> c = CHR 0x0B \<or> c = CHR 0x0C \<or>
                 c = CHR 0x0D \<or> c = CHR 0x20 \<or> c = CHR 0xA0)"

definition is_digit :: "char \<Rightarrow> bool" where
  "is_digit c = (48 \<le> (of_char c :: nat) \<and> (of_char c :: nat) \<le> 57)"

definition digit_value :: "char \<Rightarrow> nat" where
  "digit_value c = of_char c - 48"

definition digits_value :: "string \<Rightarrow> nat" where
  "digits_value ds = foldl (\<lambda>acc c. 10 * acc + digit_value c) 0 ds"

text \<open>
  The first steps of \<open>parseInt(s, 10)\<close> of the language: leading white space is
  dropped, one sign is read, then the longest run of decimal digits; whatever follows
  is ignored. The result of these steps is the mathematical integer that the digits
  denote, with the sign; without a digit there is none (\<open>None\<close>).
\<close>

definition mathInt10 :: "string \<Rightarrow> int option" where
  "mathInt10 s =
     (let S = dropWhile is_space s;
          sign = (case S of c # _ \<Rightarrow> (if c = CHR ''-'' then - 1 else 1) | [] \<Rightarrow> (1::int));
          S' = (case S of c # r \<Rightarrow> (if c = CHR ''-'' \<or> c = CHR ''+'' then r else S) | [] \<Rightarrow> S);
          Z = takeWhile is_digit S'
      in if Z = [] then None else Some (sign * int (digits_value Z)))"

definition minus_sign :: "string \<Rightarrow> bool" where
  "minus_sign s = (case dropWhile is_space s of c # _ \<Rightarrow> c = CHR ''-'' | [] \<Rightarrow> False)"

text \<open>
  A number of the language is a double. The model tells apart the doubles that are
  integers (\<open>Num\<close>, the integer being one that a double can hold), negative zero, NaN,
  and every other number (\<open>Other\<close>: a number with a fraction, an infinity, or a result
  that the language leaves to the implementation), about which the model says nothing.
\<close>

datatype js_number = Num int | NegZero | NaN | Other

fun bit_length :: "nat \<Rightarrow> nat" where
  "bit_length n = (if n = 0 then 0 else Suc (bit_length (n div 2)))"

declare bit_length.simps [simp del]

text \<open>
  The double nearest to a natural number, ties to the even significand of 53 bits.
\<close>

definition round_nat :: "nat \<Rightarrow> nat" where
  "round_nat n =
     (if n < 2 ^ 53 then n
      else (let e = bit_length n - 53;
                q = n div 2 ^ e;
                r = n mod 2 ^ e;
                h = 2 ^ (e - 1)
            in (if h < r \<or> (r = h \<and> odd q) then q + 1 else q) * 2 ^ e))"

text \<open>
  The number for an integer: the nearest double, an infinity (\<open>Other\<close>) from
  \<open>2 ^ 1024\<close> on.
\<close>

definition to_number :: "int \<Rightarrow> js_number" where
  "to_number i =
     (let m = round_nat (nat \<bar>i\<bar>)
      in if m \<ge> 2 ^ 1024 then Other else Num (if i < 0 then - int m else int m))"

text \<open>Addition and negation of numbers, and whether a number is truthy.\<close>

fun js_add :: "js_number \<Rightarrow> js_number \<Rightarrow> js_number" where
  "js_add NaN y = NaN"
| "js_add x NaN = NaN"
| "js_add Other y = Other"
| "js_add x Other = Other"
| "js_add NegZero NegZero = NegZero"
| "js_add NegZero (Num b) = Num b"
| "js_add (Num a) NegZero = Num a"
| "js_add (Num a) (Num b) = to_number (a + b)"

fun js_neg :: "js_number \<Rightarrow> js_number" where
  "js_neg (Num n) = (if n = 0 then NegZero else Num (- n))"
| "js_neg NegZero = Num 0"
| "js_neg NaN = NaN"
| "js_neg Other = Other"

fun js_truthy :: "js_number \<Rightarrow> bool" where
  "js_truthy (Num n) = (n \<noteq> 0)"
| "js_truthy NegZero = False"
| "js_truthy NaN = False"
| "js_truthy Other = True"

text \<open>
  \<open>parseInt(s, 10)\<close>: NaN without a digit, otherwise the number for the signed integer
  read, negative zero for a zero behind a minus sign. From 21 significant digits on
  the language lets the implementation replace digits by zeros: \<open>Other\<close>.
\<close>

definition parseInt10 :: "string \<Rightarrow> js_number" where
  "parseInt10 s =
     (case mathInt10 s of
        None \<Rightarrow> NaN
      | Some m \<Rightarrow>
          (if \<bar>m\<bar> \<ge> 10 ^ 20 then Other
           else if m = 0 \<and> minus_sign s then NegZero
           else to_number m))"

definition digit_char :: "nat \<Rightarrow> char" where
  "digit_char d = char_of (48 + d)"

fun nat_digits :: "nat \<Rightarrow> string" where
  "nat_digits n = (if n < 10 then [digit_char n] else nat_digits (n div 10) @ [digit_char (n mod 10)])"

declare nat_digits.simps [simp del]

text \<open>The decimal text of an integer: digits, behind a minus sign when it is negative.\<close>

definition decimal_text :: "int \<Rightarrow> string" where
  "decimal_text i = (if i < 0 then CHR ''-'' # nat_digits (nat (- i)) else nat_digits (nat i))"

text \<open>
  The text of an integer number, as string concatenation produces it (\<open>'' + '' + delta\<close>):
  its decimal text below \<open>2 ^ 53\<close>, where a double holds every integer. From there on
  the language writes the shortest digits that tell the double from its neighbours,
  and an exponent from \<open>10 ^ 21\<close> on, which the model does not spell out (\<open>None\<close>).
\<close>

definition number_toString :: "int \<Rightarrow> string option" where
  "number_toString i = (if \<bar>i\<bar> < 2 ^ 53 then Some (decimal_text i) else None)"

text \<open>
  What \<open>getAdjusted\<close> returns: \<open>@return {string|number}\<close>, or \<open>JUnmodelled\<close> where the
  text depends on a number that the model does not spell out.
\<close>

datatype js_value = JString string | JNumber js_number | JUnmodelled

subsection \<open>Order of operation constants\<close>

definition ORDER_ATOMIC :: int where "ORDER_ATOMIC = 0"
definition ORDER_UNARY_POSTFIX :: int where "ORDER_UNARY_POSTFIX = 1"
definition ORDER_UNARY_PREFIX :: int where "ORDER_UNARY_PREFIX = 2"
definition ORDER_MULTIPLICATIVE :: int where "ORDER_MULTIPLICATIVE = 3"
definition ORDER_ADDITIVE :: int where "ORDER_ADDITIVE = 4"
definition ORDER_SHIFT :: int where "ORDER_SHIFT = 5"
definition ORDER_BITWISE_AND :: int where "ORDER_BITWISE_AND = 6"
definition ORDER_BITWISE_XOR :: int where "ORDER_BITWISE_XOR = 7"
definition ORDER_BITWISE_OR :: int where "ORDER_BITWISE_OR = 8"
definition ORDER_RELATIONAL :: int where "ORDER_RELATIONAL = 9"
definition ORDER_EQUALITY :: int where "ORDER_EQUALITY = 10"
definition ORDER_LOGICAL_AND :: int where "ORDER_LOGICAL_AND = 11"
definition ORDER_LOGICAL_OR :: int where "ORDER_LOGICAL_OR = 12"
definition ORDER_IF_NULL :: int where "ORDER_IF_NULL = 13"
definition ORDER_CONDITIONAL :: int where "ORDER_CONDITIONAL = 14"
definition ORDER_CASCADE :: int where "ORDER_CASCADE = 15"
definition ORDER_ASSIGNMENT :: int where "ORDER_ASSIGNMENT = 16"
definition ORDER_NONE :: int where "ORDER_NONE = 99"

subsection \<open>Blocks, workspaces and the generator's inherited members\<close>

text \<open>
  A block as the module reads it: \<open>getCommentText()\<close>, whether \<open>getProcedureDef\<close> is
  present, \<open>outputConnection\<close> (\<open>None\<close> when the block has none, otherwise whether its
  \<open>targetConnection\<close> is set), \<open>inputList\<close> and \<open>nextConnection\<close> (\<open>None\<close> when the
  block has none, otherwise its \<open>targetBlock()\<close>). An input of type \<open>INPUT_VALUE\<close> always
  has a connection; \<open>input_target\<close> is that connection's \<open>targetBlock()\<close>.
\<close>

datatype block =
  Block (block_type: string) (getCommentText: string) (getProcedureDef: bool)
    (outputConnection: "bool option") (inputList: "input list")
    (nextConnection: "block option option")
and input =
  ValueInput (input_name: string) (input_target: "block option")
| StatementInput (input_name: string) (input_target: "block option")
| DummyInput (input_name: string)

record variable =
  name :: string

text \<open>
  A workspace: \<open>getAllVariables()\<close> and \<open>options.oneBasedIndex\<close>.
\<close>

record workspace =
  getAllVariables :: "variable list"
  oneBasedIndex :: bool

text \<open>
  The members of \<open>Blockly\<close> and of \<open>Blockly.Generator\<close> that the module calls and that
  are not part of this repository (they come with the node-blockly package) are
  parameters of the model:
  \<^item> \<open>isNumber\<close>: \<open>Blockly.isNumber\<close>;
  \<^item> \<open>connectedToCode\<close>: the text \<open>valueToCode\<close> yields for a block plugged into a
    value socket, under the order given (parentheses included);
  \<^item> \<open>blockCode\<close>: the generation rule of a statement block, \<open>this[block.type]\<close>;
  \<^item> \<open>wrap\<close>: \<open>Blockly.utils.wrap\<close>; \<open>COMMENT_WRAP\<close>; \<open>prefixLines\<close>;
    \<open>allNestedComments\<close>.
\<close>

record generator =
  isNumber :: "string \<Rightarrow> bool"
  connectedToCode :: "block \<Rightarrow> int \<Rightarrow> string"
  blockCode :: "block \<Rightarrow> string"
  wrap :: "string \<Rightarrow> int \<Rightarrow> string"
  COMMENT_WRAP :: int
  prefixLines :: "string \<Rightarrow> string \<Rightarrow> string"
  allNestedComments :: "block \<Rightarrow> string"

text \<open>\<open>block.getInputTargetBlock(name)\<close>: the block plugged into the input of that name.\<close>

fun getInputTargetBlock_list :: "input list \<Rightarrow> string \<Rightarrow> block option" where
  "getInputTargetBlock_list [] n = None"
| "getInputTargetBlock_list (DummyInput m # is) n =
     (if m = n then None else getInputTargetBlock_list is n)"
| "getInputTargetBlock_list (ValueInput m t # is) n =
     (if m = n then t else getInputTargetBlock_list is n)"
| "getInputTargetBlock_list (StatementInput m t # is) n =
     (if m = n then t else getInputTargetBlock_list is n)"

definition getInputTargetBlock :: "block \<Rightarrow> string \<Rightarrow> block option" where
  "getInputTargetBlock b n = getInputTargetBlock_list (inputList b) n"

text \<open>
  Modelled from the spec: \<open>Blockly.Generator.valueToCode\<close> is library code outside
  this repository. Section 4.1 of the specification: it "returns the emitted text for
  the connected block's expression, or an empty/absent result if unconnected (caller
  supplies a default)". The text for a connected block is the parameter
  \<open>connectedToCode\<close>.
\<close>

definition valueToCode :: "generator \<Rightarrow> block \<Rightarrow> string \<Rightarrow> int \<Rightarrow> string" where
  "valueToCode g b n outerOrder =
     (case getInputTargetBlock b n of
        None \<Rightarrow> []
      | Some t \<Rightarrow> connectedToCode g t outerOrder)"

subsection \<open>getAdjusted\<close>

text \<open>\<open>x || d\<close> on strings: the empty string is falsy.\<close>

definition or_default :: "string \<Rightarrow> string \<Rightarrow> string" where
  "or_default x d = (if x = [] then d else x)"

text \<open>
  Lines 230 to 234: \<open>delta = opt_delta || 0\<close>, decremented under one-based indexing.
  An argument left out is \<open>None\<close>.
\<close>

definition adjusted_delta :: "workspace \<Rightarrow> js_number option \<Rightarrow> js_number" where
  "adjusted_delta ws opt_delta =
     (let delta = (case opt_delta of
                     None \<Rightarrow> Num 0
                   | Some d \<Rightarrow> (if js_truthy d then d else Num 0))
      in if oneBasedIndex ws then js_add delta (Num (- 1)) else delta)"

text \<open>Line 231: \<open>order = opt_order || ORDER_NONE\<close>; the number 0 is falsy.\<close>

definition required_order :: "int option \<Rightarrow> int" where
  "required_order opt_order =
     (case opt_order of None \<Rightarrow> ORDER_NONE | Some k \<Rightarrow> (if k = 0 then ORDER_NONE else k))"

definition defaultAtIndex :: "workspace \<Rightarrow> string" where
  "defaultAtIndex ws = (if oneBasedIndex ws then ''1'' else ''0'')"

text \<open>Lines 236 to 245: the operand \<open>at\<close>, resolved under the order its use needs.\<close>

definition resolved_at ::
  "generator \<Rightarrow> workspace \<Rightarrow> block \<Rightarrow> string \<Rightarrow> js_number option \<Rightarrow> bool \<Rightarrow> int option \<Rightarrow> string" where
  "resolved_at g ws b atId opt_delta opt_negate opt_order =
     (if js_truthy (adjusted_delta ws opt_delta) then
        or_default (valueToCode g b atId ORDER_ADDITIVE) (defaultAtIndex ws)
      else if opt_negate then
        or_default (valueToCode g b atId ORDER_UNARY_PREFIX) (defaultAtIndex ws)
      else
        or_default (valueToCode g b atId (required_order opt_order)) (defaultAtIndex ws))"

text \<open>
  Lines 247 to 276. \<open>ws\<close> is \<open>block.workspace\<close>; the variable \<open>at\<close> of the source is
  \<open>at'\<close> here. The orders of this module are integers, on which \<open>Math.floor\<close> changes
  nothing; \<open>innerOrder\<close> stays undefined (\<open>None\<close>, falsy after \<open>Math.floor\<close>) when
  there is neither a delta nor a negation. In the branch of a dynamic operand the
  delta is compared with zero and written into the text: for a delta that is \<open>Other\<close>,
  or an integer from \<open>2 ^ 53\<close> on, the result is \<open>JUnmodelled\<close>.
\<close>

definition getAdjusted ::
  "generator \<Rightarrow> workspace \<Rightarrow> block \<Rightarrow> string \<Rightarrow> js_number option \<Rightarrow> bool \<Rightarrow> int option \<Rightarrow>
     js_value" where
  "getAdjusted g ws b atId opt_delta opt_negate opt_order =
     (let delta = adjusted_delta ws opt_delta;
          order = required_order opt_order;
          at' = resolved_at g ws b atId opt_delta opt_negate opt_order
      in if isNumber g at' then
           (let sum = js_add (parseInt10 at') delta
            in JNumber (if opt_negate then js_neg sum else sum))
         else
           (let d = (case delta of Num k \<Rightarrow> k | _ \<Rightarrow> 0)
            in case (delta, number_toString \<bar>d\<bar>) of
                 (Other, _) \<Rightarrow> JUnmodelled
               | (_, None) \<Rightarrow> JUnmodelled
               | (_, Some magnitude) \<Rightarrow>
                   (let at1 = (if d > 0 then at' @ '' + '' @ magnitude
                               else if d < 0 then at' @ '' - '' @ magnitude
                               else at');
                        innerOrder1 = (if d > 0 then Some ORDER_ADDITIVE
                                       else if d < 0 then Some ORDER_ADDITIVE
                                       else None);
                        at2 = (if opt_negate then
                                 (if js_truthy delta then ''-('' @ at1 @ '')'' else ''-'' @ at1)
                               else at1);
                        innerOrder = (if opt_negate then Some ORDER_UNARY_PREFIX else innerOrder1)
                    in JString
                         (case innerOrder of
                            None \<Rightarrow> at2
                          | Some io \<Rightarrow>
                              (if io \<noteq> 0 \<and> order \<ge> io then ''('' @ at2 @ '')'' else at2)))))"

text \<open>
  \<open>Blockly.isNumber\<close> as the library defines it, the regular expression
  \<^verbatim>\<open>/^\s*-?\d+(\.\d+)?\s*$/\<close>: an instance of the parameter \<open>isNumber\<close>, for evaluating
  the module at concrete inputs.
\<close>

definition Blockly_isNumber :: "string \<Rightarrow> bool" where
  "Blockly_isNumber s =
     (let s1 = dropWhile is_space s;
          s2 = (case s1 of c # r \<Rightarrow> (if c = CHR ''-'' then r else s1) | [] \<Rightarrow> s1);
          ds = takeWhile is_digit s2;
          s3 = dropWhile is_digit s2;
          s4 = (case s3 of
                  c # r \<Rightarrow>
                    (if c = CHR ''.'' \<and> takeWhile is_digit r \<noteq> [] then dropWhile is_digit r
                     else s3)
                | [] \<Rightarrow> s3)
      in ds \<noteq> [] \<and> list_all is_space s4)"

subsection \<open>The module's state\<close>

text \<open>
  The reserved words passed to \<open>addReservedWords\<close>; the library appends a comma to
  what it is given.
\<close>

definition RESERVED_WORDS :: string where
  "RESERVED_WORDS =
     ''assert,break,case,catch,class,const,continue,default,do,else,enum,'' @
     ''extends,false,final,finally,for,if,in,is,new,null,rethrow,return,super,'' @
     ''switch,this,throw,true,try,var,void,while,with,'' @
     ''print,identityHashCode,identical,BidirectionalIterator,Comparable,'' @
     ''double,Function,int,Invocation,Iterable,Iterator,List,Map,Match,num,'' @
     ''Pattern,RegExp,Set,StackTrace,String,StringSink,Type,bool,DateTime,'' @
     ''Deprecated,Duration,Expando,Null,Object,RuneIterator,Runes,Stopwatch,'' @
     ''StringBuffer,Symbol,Uri,Comparator,AbstractClassInstantiationError,'' @
     ''ArgumentError,AssertionError,CastError,ConcurrentModificationError,'' @
     ''CyclicInitializationError,Error,Exception,FallThroughError,'' @
     ''FormatException,IntegerDivisionByZeroException,NoSuchMethodError,'' @
     ''NullThrownError,OutOfMemoryError,RangeError,StackOverflowError,'' @
     ''StateError,TypeError,UnimplementedError,UnsupportedError'' @ '',''"

text \<open>
  \<open>Blockly.Names\<close>, the name registry, is library code outside this repository: its
  constructor, \<open>reset\<close> and \<open>getName\<close> are parameters, over any type \<open>'db\<close> of
  registries. \<open>getName\<close> returns the emitted name and the registry it leaves behind.
  \<open>NAME_TYPE\<close> is \<open>Blockly.Variables.NAME_TYPE\<close>.
\<close>

record 'db names_ops =
  names_new :: "string \<Rightarrow> 'db"
  names_reset :: "'db \<Rightarrow> 'db"
  names_getName :: "'db \<Rightarrow> string \<Rightarrow> string \<Rightarrow> string \<times> 'db"
  NAME_TYPE :: string

text \<open>
  The fields \<open>definitions_\<close>, \<open>functionNames_\<close> and \<open>variableDB_\<close> of \<open>Blockly.Cpp\<close>;
  \<open>None\<close> is a field that is undefined (never assigned, or deleted). A dictionary is
  the list of its entries in the order \<open>for (name in ...)\<close> enumerates them.
\<close>

record 'db cpp_state =
  definitions :: "(string \<times> string) list option"
  functionNames :: "(string \<times> string) list option"
  variableDB :: "'db option"

text \<open>The state of the module when it has been loaded and nothing has been called.\<close>

definition initial_state :: "'db cpp_state" where
  "initial_state = \<lparr>definitions = None, functionNames = None, variableDB = None\<rparr>"

datatype error = TypeError

subsection \<open>init\<close>

text \<open>The loop of lines 111 to 114: one \<open>getName\<close> per variable, in order, on one registry.\<close>

fun getNames :: "'db names_ops \<Rightarrow> 'db \<Rightarrow> variable list \<Rightarrow> string list \<times> 'db" where
  "getNames ops db [] = ([], db)"
| "getNames ops db (v # vs) =
     (let (n, db1) = names_getName ops db (name v) (NAME_TYPE ops);
          (ns, db2) = getNames ops db1 vs
      in (n # ns, db2))"

definition init :: "'db names_ops \<Rightarrow> 'db cpp_state \<Rightarrow> workspace \<Rightarrow> 'db cpp_state" where
  "init ops st ws =
     (let db0 = (case variableDB st of
                   None \<Rightarrow> names_new ops RESERVED_WORDS
                 | Some db \<Rightarrow> names_reset ops db);
          variables = getAllVariables ws
      in if variables \<noteq> [] then
           (let (defvars, db1) = getNames ops db0 variables
            in \<lparr>definitions = Some [(''variables'', ''var '' @ join '', '' defvars @ '';'')],
                functionNames = Some [],
                variableDB = Some db1\<rparr>)
         else
           \<lparr>definitions = Some [], functionNames = Some [], variableDB = Some db0\<rparr>)"

subsection \<open>finish\<close>

text \<open>\<^verbatim>\<open>def.match(/^import\s/)\<close>\<close>

definition is_import :: "string \<Rightarrow> bool" where
  "is_import d =
     (starts_with ''import'' d \<and> (case drop 6 d of [] \<Rightarrow> False | c # _ \<Rightarrow> is_space c))"

text \<open>
  \<^verbatim>\<open>.replace(/\n\n+/g, '\n\n')\<close>: scanning from the left, a run of two or more line
  feeds is matched whole and replaced by two.
\<close>

function collapse_newlines :: "string \<Rightarrow> string" where
  "collapse_newlines [] = []"
| "collapse_newlines [c] = [c]"
| "collapse_newlines (c # d # cs) =
     (if c = NL \<and> d = NL then NL # NL # collapse_newlines (dropWhile (\<lambda>x. x = NL) cs)
      else c # collapse_newlines (d # cs))"
  by pat_completeness auto
termination
  by (relation "measure length")
    (auto simp: le_imp_less_Suc length_dropWhile_le less_Suc_eq_le intro: le_SucI)

text \<open>
  \<^verbatim>\<open>.replace(/\n*$/, '\n\n\n')\<close>: the first match only. The pattern matches at the first
  position from which nothing but line feeds remain.
\<close>

fun replace_trailing_newlines :: "string \<Rightarrow> string" where
  "replace_trailing_newlines [] = [NL, NL, NL]"
| "replace_trailing_newlines (c # cs) =
     (if list_all (\<lambda>x. x = NL) (c # cs) then [NL, NL, NL]
      else c # replace_trailing_newlines cs)"

text \<open>The text without the line feeds at its end.\<close>

definition strip_trailing_newlines :: "string \<Rightarrow> string" where
  "strip_trailing_newlines s = rev (dropWhile (\<lambda>x. x = NL) (rev s))"

text \<open>
  \<open>finish\<close> reads and clears the state. \<open>for (name in undefined)\<close> runs no iteration;
  \<open>Blockly.Cpp.variableDB_.reset()\<close> on an undefined registry throws a TypeError.
\<close>

definition finish ::
  "'db names_ops \<Rightarrow> 'db cpp_state \<Rightarrow> string \<Rightarrow> error + (string \<times> 'db cpp_state)" where
  "finish ops st code =
     (let defs = (case definitions st of None \<Rightarrow> [] | Some d \<Rightarrow> map snd d);
          imports = filter is_import defs;
          definitions' = filter (\<lambda>d. \<not> is_import d) defs
      in case variableDB st of
           None \<Rightarrow> Inl TypeError
         | Some db \<Rightarrow>
             (let allDefs = join [NL] imports @ [NL, NL] @ join [NL, NL] definitions'
              in Inr (replace_trailing_newlines (collapse_newlines allDefs) @ code,
                      \<lparr>definitions = None, functionNames = None,
                       variableDB = Some (names_reset ops db)\<rparr>)))"

text \<open>The texts of the entries of \<open>definitions_\<close>, in the order of enumeration.\<close>

definition definition_entries :: "'db cpp_state \<Rightarrow> string list" where
  "definition_entries st = (case definitions st of None \<Rightarrow> [] | Some d \<Rightarrow> map snd d)"

text \<open>
  An entry that the collapsing of blank lines leaves as it is wherever it stands: not
  empty, no line feed at its start or at its end, and no two line feeds in a row.
\<close>

definition unbroken :: "string \<Rightarrow> bool" where
  "unbroken d = (d \<noteq> [] \<and> \<not> starts_with [NL] d \<and> \<not> starts_with [NL] (rev d) \<and>
                 \<not> contains [NL, NL] d)"

subsection \<open>scrub (the source's scrub_)\<close>

text \<open>
  Lines 186 to 213: the comment text of a block. Nothing is collected for a block
  whose output is plugged into another block.
\<close>

definition input_comment :: "generator \<Rightarrow> input \<Rightarrow> string" where
  "input_comment g i =
     (case i of
        ValueInput _ (Some childBlock) \<Rightarrow>
          (let comment = allNestedComments g childBlock
           in if comment \<noteq> [] then prefixLines g comment ''// '' else [])
      | _ \<Rightarrow> [])"

definition commentCode :: "generator \<Rightarrow> block \<Rightarrow> string" where
  "commentCode g b =
     (if outputConnection b = None \<or> outputConnection b = Some False then
        (let comment = wrap g (getCommentText b) (COMMENT_WRAP g - 3);
             own = (if comment \<noteq> [] then
                      (if getProcedureDef b then prefixLines g (comment @ [NL]) ''/// ''
                       else prefixLines g (comment @ [NL]) ''// '')
                    else [])
         in own @ concat (map (input_comment g) (inputList b)))
      else [])"

text \<open>\<open>block.nextConnection && block.nextConnection.targetBlock()\<close>\<close>

definition nextBlock :: "block \<Rightarrow> block option" where
  "nextBlock b = (case nextConnection b of None \<Rightarrow> None | Some t \<Rightarrow> t)"

text \<open>
  Modelled from the spec: \<open>Blockly.Generator.blockToCode\<close> is library code outside
  this repository; for a statement block it computes the block's own code by the rule
  of its type and hands both to \<open>scrub_\<close> (section 4.1, generate); for no block it is
  the empty text. \<open>scrub\<close> is lines 214 to 216 of the source: the comment text, the
  code it was given, and \<open>blockToCode\<close> of the next block, which calls \<open>scrub\<close> again.
\<close>

function blockToCode :: "generator \<Rightarrow> block option \<Rightarrow> string"
  and scrub :: "generator \<Rightarrow> block \<Rightarrow> string \<Rightarrow> string" where
  "blockToCode g None = []"
| "blockToCode g (Some b) = scrub g b (blockCode g b)"
| "scrub g b code = commentCode g b @ code @ blockToCode g (nextBlock b)"
  by pat_completeness auto
termination
proof (relation "measure (\<lambda>x. case x of Inl (g, ob) \<Rightarrow> 2 * size_option size ob | Inr (g, b, c) \<Rightarrow> 2 * size b + 1)")
  show "wf (measure (\<lambda>x. case x of Inl (g, ob) \<Rightarrow> 2 * size_option size ob | Inr (g, b, c) \<Rightarrow> 2 * size b + 1))"
    by simp
next
  fix g b
  show "(Inr (g, b, blockCode g b), Inl (g, Some b))
      \<in> measure (\<lambda>x. case x of Inl (g, ob) \<Rightarrow> 2 * size_option size ob | Inr (g, b, c) \<Rightarrow> 2 * size b + 1)"
    by simp
next
  fix g b and code :: string
  have "size_option size (nextBlock b) \<le> size b"
    by (cases b) (auto simp: nextBlock_def split: option.splits)
  then show "(Inl (g, nextBlock b), Inr (g, b, code))
      \<in> measure (\<lambda>x. case x of Inl (g, ob) \<Rightarrow> 2 * size_option size ob | Inr (g, b, c) \<Rightarrow> 2 * size b + 1)"
    by simp
qed

subsection \<open>A generation pass\<close>

text \<open>
  Modelled from the spec: the driver of a pass (\<open>Blockly.Generator.workspaceToCode\<close>)
  is library code outside this repository. After section 8 of the specification, a
  generation pass is bracketed by \<open>init\<close> and \<open>finish\<close>. What runs between them, the
  generation of the blocks, may ask the registry for names and add definitions: it is
  a parameter, a function from the state to the body text and the state it leaves.
\<close>

definition generation_pass ::
  "'db names_ops \<Rightarrow> workspace \<Rightarrow> ('db cpp_state \<Rightarrow> string \<times> 'db cpp_state) \<Rightarrow> 'db cpp_state \<Rightarrow>
     error + (string \<times> 'db cpp_state)" where
  "generation_pass ops ws body st =
     (let st1 = init ops st ws;
          (code, st2) = body st1
      in finish ops st2 code)"

subsection \<open>Instances of the parameters\<close>

text \<open>
  The theorems below hold for every choice of the parameters. To evaluate the module
  at concrete inputs, the parameters are instantiated: a small name registry that
  remembers the names it gave and numbers a name that is taken, and a generator in
  which a plugged block is an atomic expression spelled as its type, a statement block
  is its type followed by a semicolon, short comments are not wrapped, and every line
  of a comment gets the prefix.
\<close>

definition fresh_name :: "string list \<Rightarrow> string \<Rightarrow> string" where
  "fresh_name used n =
     (case find (\<lambda>c. \<not> List.member used c)
             (n # map (\<lambda>i. n @ nat_digits i) [2..<length used + 3]) of
        Some c \<Rightarrow> c
      | None \<Rightarrow> n)"

definition simple_getName ::
  "string list \<Rightarrow> (string \<times> string) list \<Rightarrow> string \<Rightarrow> string \<Rightarrow>
     string \<times> (string \<times> string) list" where
  "simple_getName reserved db n t =
     (let key = n @ ''_'' @ t
      in case map_of db key of
           Some e \<Rightarrow> (e, db)
         | None \<Rightarrow> (let e = fresh_name (reserved @ map snd db) n in (e, db @ [(key, e)])))"

definition simple_names :: "string list \<Rightarrow> (string \<times> string) list names_ops" where
  "simple_names reserved =
     \<lparr>names_new = (\<lambda>_. []), names_reset = (\<lambda>_. []),
      names_getName = simple_getName reserved, NAME_TYPE = ''VARIABLE''\<rparr>"

fun prefix_inner_lines :: "string \<Rightarrow> string \<Rightarrow> string" where
  "prefix_inner_lines p [] = []"
| "prefix_inner_lines p [c] = [c]"
| "prefix_inner_lines p (c # d # cs) =
     (if c = NL then NL # p @ prefix_inner_lines p (d # cs)
      else c # prefix_inner_lines p (d # cs))"

definition simple_generator :: generator where
  "simple_generator =
     \<lparr>isNumber = Blockly_isNumber,
      connectedToCode = (\<lambda>b outerOrder. block_type b),
      blockCode = (\<lambda>b. block_type b @ '';'' @ [NL]),
      wrap = (\<lambda>text limit. text),
      COMMENT_WRAP = 60,
      prefixLines = (\<lambda>text p. p @ prefix_inner_lines p text),
      allNestedComments = (\<lambda>b. if getCommentText b = [] then [] else getCommentText b @ [NL])\<rparr>"

text \<open>
  Blocks and workspaces for evaluation: a value block whose text is \<open>t\<close>, plugged into
  a parent; a statement block with one value input named AT; a workspace with
  zero-based and one with one-based indexing.
\<close>

definition value_block :: "string \<Rightarrow> block" where
  "value_block t = Block t [] False (Some True) [] None"

definition index_block :: "block option \<Rightarrow> block" where
  "index_block target = Block ''lists_getIndex'' [] False None [ValueInput ''AT'' target] (Some None)"

definition zero_based :: workspace where
  "zero_based = \<lparr>getAllVariables = [], oneBasedIndex = False\<rparr>"

definition one_based :: workspace where
  "one_based = \<lparr>getAllVariables = [], oneBasedIndex = True\<rparr>"

text \<open>
  A chain of three statement blocks, the first with a comment; a block generation
  that asks the registry for the name of a procedure \<open>count\<close>; a workspace with the
  variables \<open>count\<close> and \<open>var\<close>, and one without variables.
\<close>

definition sample_chain :: block where
  "sample_chain =
     Block ''step_a'' ''first'' False None []
       (Some (Some (Block ''step_b'' [] False None []
         (Some (Some (Block ''step_c'' [] False None [] (Some None)))))))"

definition call_body ::
  "(string \<times> string) list names_ops \<Rightarrow> (string \<times> string) list cpp_state \<Rightarrow>
     string \<times> (string \<times> string) list cpp_state" where
  "call_body ops st =
     (case variableDB st of
        None \<Rightarrow> ([], st)
      | Some db \<Rightarrow>
          (let (n, db1) = names_getName ops db ''count'' ''PROCEDURE''
           in (n @ ''();'' @ [NL], st\<lparr>variableDB := Some db1\<rparr>)))"

definition counting_workspace :: workspace where
  "counting_workspace =
     \<lparr>getAllVariables = [\<lparr>name = ''count''\<rparr>, \<lparr>name = ''var''\<rparr>], oneBasedIndex = False\<rparr>"

definition empty_workspace :: workspace where
  "empty_workspace = \<lparr>getAllVariables = [], oneBasedIndex = False\<rparr>"

text \<open>A state with a registry and three entries, the import entered last.\<close>

definition sample_state :: "(string \<times> string) list cpp_state" where
  "sample_state =
     \<lparr>definitions = Some [(''variables'', ''var x;''),
                          (''helper'', ''int f() {'' @ [NL] @ ''}''),
                          (''import_math'', ''import m;'')],
      functionNames = Some [], variableDB = Some []\<rparr>"

subsection \<open>The number a numeral denotes\<close>

text \<open>
  For comparing what the module computes with the value of its operand: the number
  that a numeral text (white space, an optional minus sign, digits, an optional
  fraction) denotes, and rounding toward zero.
\<close>

definition numeral_value :: "string \<Rightarrow> rat" where
  "numeral_value s =
     (let s1 = dropWhile is_space s;
          negative = (case s1 of c # _ \<Rightarrow> c = CHR ''-'' | [] \<Rightarrow> False);
          s2 = (if negative then tl s1 else s1);
          ip = takeWhile is_digit s2;
          s3 = dropWhile is_digit s2;
          fp = (case s3 of c # r \<Rightarrow> (if c = CHR ''.'' then takeWhile is_digit r else []) | [] \<Rightarrow> []);
          v = of_nat (digits_value ip) + of_nat (digits_value fp) / 10 ^ length fp
      in if negative then - v else v)"

definition toward_zero :: "rat \<Rightarrow> int" where
  "toward_zero v = (if v \<ge> 0 then \<lfloor>v\<rfloor> else \<lceil>v\<rceil>)"

section \<open>Properties\<close>

subsection \<open>quote (the source's quote_)\<close>

lemma replace_char_concat:
  "replace_char c r s = concat (map (\<lambda>x. if x = c then r else [x]) s)"
  by (induction s) simp_all

lemma replace_char_append:
  "replace_char c r (xs @ ys) = replace_char c r xs @ replace_char c r ys"
  by (induction xs) simp_all

lemma quote_escape_chars:
  "quote s = [APOSTROPHE] @ concat (map escape_char s) @ [APOSTROPHE]"
proof -
  have step: "replace_char APOSTROPHE [BACKSLASH, APOSTROPHE]
      (replace_char DOLLAR [BACKSLASH, DOLLAR]
        (replace_char NL [BACKSLASH, NL]
          (replace_char BACKSLASH [BACKSLASH, BACKSLASH] s))) = concat (map escape_char s)"
  proof (induction s)
    case Nil
    show ?case by simp
  next
    case (Cons x xs)
    then show ?case
      by (simp add: escape_char_def replace_char_append
          BACKSLASH_def NL_def DOLLAR_def APOSTROPHE_def)
  qed
  show ?thesis
    unfolding quote_def Let_def using step by simp
qed

text \<open>
  C4. \<open>quote\<close> applied to the text \<open>it's\<close>, line feed, \<open>$x\<close> returns that text between
  single quotes with the apostrophe as backslash and apostrophe, the line feed as
  backslash and the line feed itself, and the dollar as backslash and dollar. In
  general every character of the input is escaped once, on its own: a backslash of the
  input becomes two backslashes, because backslashes are replaced before the
  replacements that introduce new ones.
\<close>

theorem quote_sample_and_escapes:
  "quote (''it'' @ [APOSTROPHE] @ ''s'' @ [NL] @ ''$x'') =
     [APOSTROPHE] @ ''it'' @ [BACKSLASH, APOSTROPHE] @ ''s'' @ [BACKSLASH, NL] @
       [BACKSLASH, DOLLAR] @ ''x'' @ [APOSTROPHE] \<and>
   (\<forall>s. quote s = [APOSTROPHE] @ concat (map escape_char s) @ [APOSTROPHE])"
proof
  show "quote (''it'' @ [APOSTROPHE] @ ''s'' @ [NL] @ ''$x'') =
     [APOSTROPHE] @ ''it'' @ [BACKSLASH, APOSTROPHE] @ ''s'' @ [BACKSLASH, NL] @
       [BACKSLASH, DOLLAR] @ ''x'' @ [APOSTROPHE]"
    by (simp add: quote_def APOSTROPHE_def NL_def BACKSLASH_def DOLLAR_def)
next
  show "\<forall>s. quote s = [APOSTROPHE] @ concat (map escape_char s) @ [APOSTROPHE]"
    using quote_escape_chars by blast
qed

text \<open>
  The output for that text holds no backslash followed by the letter n: the line feed
  stays a line feed, behind a backslash.
\<close>

theorem quote_newline_counterexample:
  "\<not> contains [BACKSLASH, CHR ''n''] (quote (''it'' @ [APOSTROPHE] @ ''s'' @ [NL] @ ''$x'')) \<and>
   contains [BACKSLASH, NL] (quote (''it'' @ [APOSTROPHE] @ ''s'' @ [NL] @ ''$x''))"
  by (simp add: quote_def APOSTROPHE_def NL_def BACKSLASH_def DOLLAR_def)

subsection \<open>finish\<close>

lemma dropWhile_all_Nil: "list_all P s \<Longrightarrow> dropWhile P s = []"
  by (induction s) simp_all

lemma strip_trailing_Cons:
  "strip_trailing_newlines (c # cs) =
     (if list_all (\<lambda>x. x = NL) (c # cs) then [] else c # strip_trailing_newlines cs)"
proof (cases "list_all (\<lambda>x. x = NL) cs")
  case True
  then have a: "dropWhile (\<lambda>x. x = NL) (rev cs) = []"
    by (simp add: dropWhile_all_Nil list_all_iff)
  from True have b: "dropWhile (\<lambda>x. x = NL) (rev cs @ [c]) = dropWhile (\<lambda>x. x = NL) [c]"
    by (intro dropWhile_append2) (simp add: list_all_iff)
  have c1: "strip_trailing_newlines (c # cs) = rev (dropWhile (\<lambda>x. x = NL) [c])"
    unfolding strip_trailing_newlines_def by (simp only: rev.simps b)
  have c2: "strip_trailing_newlines cs = []"
    unfolding strip_trailing_newlines_def by (simp only: a rev.simps)
  show ?thesis unfolding c1 c2 using True by simp
next
  case False
  then obtain x where "x \<in> set (rev cs)" "x \<noteq> NL"
    by (auto simp: list_all_iff)
  then have "dropWhile (\<lambda>x. x = NL) (rev cs @ [c]) = dropWhile (\<lambda>x. x = NL) (rev cs) @ [c]"
    by (simp add: dropWhile_append1)
  with False show ?thesis
    by (simp add: strip_trailing_newlines_def)
qed

lemma replace_trailing_newlines_eq:
  "replace_trailing_newlines s = strip_trailing_newlines s @ [NL, NL, NL]"
  by (induction s) (simp_all add: strip_trailing_Cons, simp add: strip_trailing_newlines_def)

lemma strip_trailing_no_final_newline: "\<not> (\<exists>h. strip_trailing_newlines s = h @ [NL])"
proof
  assume "\<exists>h. strip_trailing_newlines s = h @ [NL]"
  then obtain h where "rev (dropWhile (\<lambda>x. x = NL) (rev s)) = h @ [NL]"
    by (auto simp: strip_trailing_newlines_def)
  then have "rev (rev (dropWhile (\<lambda>x. x = NL) (rev s))) = rev (h @ [NL])"
    by (rule arg_cong)
  then have d: "dropWhile (\<lambda>x. x = NL) (rev s) = NL # rev h"
    by (simp only: rev_rev_ident rev_append rev.simps append_Nil append_Cons)
  then have "dropWhile (\<lambda>x. x = NL) (rev s) \<noteq> []"
    by (simp only: list.distinct not_False_eq_True)
  then have "hd (dropWhile (\<lambda>x. x = NL) (rev s)) \<noteq> NL"
    by (rule hd_dropWhile)
  then show False
    by (simp only: d list.sel) simp
qed

lemma strip_trailing_prefix: "\<exists>t. s = strip_trailing_newlines s @ t \<and> list_all (\<lambda>x. x = NL) t"
proof -
  let ?t = "rev (takeWhile (\<lambda>x. x = NL) (rev s))"
  have "rev s = takeWhile (\<lambda>x. x = NL) (rev s) @ dropWhile (\<lambda>x. x = NL) (rev s)"
    by simp
  then have "rev (rev s) = rev (takeWhile (\<lambda>x. x = NL) (rev s) @ dropWhile (\<lambda>x. x = NL) (rev s))"
    by (rule arg_cong)
  then have "s = strip_trailing_newlines s @ ?t"
    by (simp only: rev_rev_ident rev_append strip_trailing_newlines_def)
  moreover have "list_all (\<lambda>x. x = NL) ?t"
    by (auto simp: list_all_iff dest: set_takeWhileD)
  ultimately show ?thesis by blast
qed

lemma starts_with_append: "starts_with p s \<Longrightarrow> starts_with p (s @ t)"
  by (induction p s rule: starts_with.induct) simp_all

lemma contains_append: "contains p s \<Longrightarrow> contains p (s @ t)"
proof (induction s)
  case Nil
  then show ?case by (cases t) simp_all
next
  case (Cons x xs)
  then show ?case
    using starts_with_append[of p "x # xs" t] by auto
qed

lemma collapse_newlines_Cons: "\<exists>r. collapse_newlines (c # cs) = c # r"
  by (cases cs) auto

lemma collapse_no_triple: "\<not> contains [NL, NL, NL] (collapse_newlines s)"
proof (induction s rule: collapse_newlines.induct)
  case 1
  show ?case by simp
next
  case (2 c)
  show ?case by simp
next
  case (3 c d cs)
  show ?case
  proof (cases "c = NL \<and> d = NL")
    case True
    let ?r = "dropWhile (\<lambda>x. x = NL) cs"
    have ih: "\<not> contains [NL, NL, NL] (collapse_newlines ?r)"
      using 3(1) True by simp
    have nohd: "\<not> starts_with [NL] (collapse_newlines ?r)"
    proof (cases ?r)
      case Nil
      show ?thesis unfolding Nil by simp
    next
      case (Cons y ys)
      then have "dropWhile (\<lambda>x. x = NL) cs \<noteq> []"
        by simp
      then have "hd (dropWhile (\<lambda>x. x = NL) cs) \<noteq> NL"
        by (rule hd_dropWhile)
      then have "y \<noteq> NL"
        unfolding Cons by simp
      moreover obtain r where "collapse_newlines (y # ys) = y # r"
        using collapse_newlines_Cons by blast
      ultimately show ?thesis using Cons by simp
    qed
    have eq: "collapse_newlines (c # d # cs) = NL # NL # collapse_newlines ?r"
      using True by simp
    show ?thesis
    proof (cases "collapse_newlines ?r")
      case Nil
      show ?thesis unfolding eq Nil by simp
    next
      case (Cons y ys)
      with nohd have "y \<noteq> NL" by simp
      moreover from ih Cons have "\<not> contains [NL, NL, NL] (y # ys)" by simp
      ultimately show ?thesis unfolding eq Cons by simp
    qed
  next
    case False
    then have ih: "\<not> contains [NL, NL, NL] (collapse_newlines (d # cs))"
      using 3(2) by simp
    obtain r where r: "collapse_newlines (d # cs) = d # r"
      using collapse_newlines_Cons by blast
    with False ih show ?thesis by auto
  qed
qed

lemma filter_collapse: "filter (\<lambda>x. x \<noteq> NL) (collapse_newlines s) = filter (\<lambda>x. x \<noteq> NL) s"
proof (induction s rule: collapse_newlines.induct)
  case (3 c d cs)
  have "filter (\<lambda>x. x \<noteq> NL) (dropWhile (\<lambda>x. x = NL) cs) = filter (\<lambda>x. x \<noteq> NL) cs"
    by (induction cs) simp_all
  with 3 show ?case by auto
qed simp_all

lemma filter_strip_trailing:
  "filter (\<lambda>x. x \<noteq> NL) (strip_trailing_newlines s) = filter (\<lambda>x. x \<noteq> NL) s"
proof -
  obtain t where t: "s = strip_trailing_newlines s @ t" "list_all (\<lambda>x. x = NL) t"
    using strip_trailing_prefix by blast
  from t(2) have "filter (\<lambda>x. x \<noteq> NL) t = []"
    by (induction t) simp_all
  then have "filter (\<lambda>x. x \<noteq> NL) (strip_trailing_newlines s @ t) =
      filter (\<lambda>x. x \<noteq> NL) (strip_trailing_newlines s)"
    by simp
  with t(1) show ?thesis by simp
qed

lemma filter_join:
  "list_all (\<lambda>x. x = NL) sep \<Longrightarrow>
   filter (\<lambda>x. x \<noteq> NL) (join sep xs) = concat (map (filter (\<lambda>x. x \<noteq> NL)) xs)"
proof (induction sep xs rule: join.induct)
  case (3 sep x y ys)
  from 3(2) have "filter (\<lambda>x. x \<noteq> NL) sep = []"
    by (induction sep) simp_all
  with 3 show ?case by simp
qed simp_all


text \<open>
  C9. When the registry exists (\<open>init\<close> has run at some time before), \<open>finish\<close> returns a
  text that ends with three line feeds followed by the body as it was given, for every
  body; what stands before the three line feeds does not end with a line feed. Without
  any collected definition the result is three line feeds followed by the body.
\<close>

theorem finish_three_newlines_then_body:
  assumes "variableDB st = Some db"
  shows "\<exists>head st'. finish ops st code = Inr (head @ [NL, NL, NL] @ code, st') \<and>
           \<not> (\<exists>h. head = h @ [NL]) \<and>
           ((definitions st = None \<or> definitions st = Some []) \<longrightarrow> head = [])"
proof -
  define defs where "defs = (case definitions st of None \<Rightarrow> [] | Some d \<Rightarrow> map snd d)"
  define allDefs where "allDefs = join [NL] (filter is_import defs) @ [NL, NL] @
      join [NL, NL] (filter (\<lambda>d. \<not> is_import d) defs)"
  define head where "head = strip_trailing_newlines (collapse_newlines allDefs)"
  define st' :: "'a cpp_state" where
    "st' = \<lparr>definitions = None, functionNames = None, variableDB = Some (names_reset ops db)\<rparr>"
  have "finish ops st code = Inr (head @ [NL, NL, NL] @ code, st')"
    using assms
    by (simp add: finish_def Let_def defs_def allDefs_def head_def st'_def
        replace_trailing_newlines_eq)
  moreover have "\<not> (\<exists>h. head = h @ [NL])"
    unfolding head_def by (rule strip_trailing_no_final_newline)
  moreover have "head = []" if "definitions st = None \<or> definitions st = Some []"
  proof -
    from that have "defs = []"
      by (auto simp: defs_def)
    then have "allDefs = [NL, NL]"
      by (simp add: allDefs_def)
    then show ?thesis
      by (simp add: head_def strip_trailing_newlines_def)
  qed
  ultimately show ?thesis by blast
qed

theorem finish_three_newlines_then_body_witness:
  "variableDB \<lparr>definitions = Some [], functionNames = Some [], variableDB = Some []\<rparr> = Some [] \<and>
   finish (simple_names []) \<lparr>definitions = Some [], functionNames = Some [], variableDB = Some []\<rparr>
       ''run();'' =
     Inr ([NL, NL, NL] @ ''run();'',
          \<lparr>definitions = None, functionNames = None, variableDB = Some []\<rparr>)"
  using finish_three_newlines_then_body
    [of "\<lparr>definitions = Some [], functionNames = Some [], variableDB = Some []\<rparr>" "[]"
        "simple_names []" "''run();''"]
  by (auto simp: simple_names_def finish_def)

text \<open>
  Without the registry there is no text at all: on the module as loaded, before any
  \<open>init\<close>, \<open>finish\<close> throws for the empty body as for any other, since line 146 calls
  \<open>reset\<close> on the undefined registry.
\<close>

theorem finish_fresh_state_counterexample:
  "definitions (initial_state :: (string \<times> string) list cpp_state) = None \<and>
   variableDB (initial_state :: (string \<times> string) list cpp_state) = None \<and>
   finish (simple_names [''var'']) initial_state [] = Inl TypeError"
  by (simp add: finish_def initial_state_def)

lemma dropWhile_append_keep:
  "ys \<noteq> [] \<Longrightarrow> hd ys \<noteq> NL \<Longrightarrow>
   dropWhile (\<lambda>x. x = NL) (cs @ ys) = dropWhile (\<lambda>x. x = NL) cs @ ys"
  by (induction cs) (auto simp: neq_Nil_conv)

lemma collapse_append:
  "ys \<noteq> [] \<Longrightarrow> hd ys \<noteq> NL \<Longrightarrow>
   collapse_newlines (xs @ ys) = collapse_newlines xs @ collapse_newlines ys"
proof (induction xs rule: collapse_newlines.induct)
  case 1
  show ?case by simp
next
  case (2 c)
  then obtain y ys' where "ys = y # ys'" "y \<noteq> NL"
    by (auto simp: neq_Nil_conv)
  then show ?case by simp
next
  case (3 c d cs)
  show ?case
  proof (cases "c = NL \<and> d = NL")
    case True
    have "collapse_newlines ((c # d # cs) @ ys) =
        NL # NL # collapse_newlines (dropWhile (\<lambda>x. x = NL) (cs @ ys))"
      using True by simp
    also have "dropWhile (\<lambda>x. x = NL) (cs @ ys) = dropWhile (\<lambda>x. x = NL) cs @ ys"
      using 3(3,4) by (rule dropWhile_append_keep)
    also have "collapse_newlines (dropWhile (\<lambda>x. x = NL) cs @ ys) =
        collapse_newlines (dropWhile (\<lambda>x. x = NL) cs) @ collapse_newlines ys"
      using 3(1)[OF True 3(3,4)] .
    finally show ?thesis using True by simp
  next
    case False
    have ih: "collapse_newlines ((d # cs) @ ys) = collapse_newlines (d # cs) @ collapse_newlines ys"
      using 3(2)[OF False 3(3,4)] .
    have "collapse_newlines ((c # d # cs) @ ys) = c # collapse_newlines ((d # cs) @ ys)"
      using False by auto
    moreover have "collapse_newlines (c # d # cs) = c # collapse_newlines (d # cs)"
      using False by auto
    ultimately show ?thesis using ih by simp
  qed
qed

lemma join_member_split:
  "x \<in> set xs \<Longrightarrow> \<exists>pre post. join sep xs = pre @ x @ post"
proof (induction sep xs rule: join.induct)
  case (1 sep)
  then show ?case by simp
next
  case (2 sep y)
  then have "join sep [y] = [] @ x @ []" by simp
  then show ?case by blast
next
  case (3 sep y z zs)
  show ?case
  proof (cases "x = y")
    case True
    then have "join sep (y # z # zs) = [] @ x @ (sep @ join sep (z # zs))" by simp
    then show ?thesis by blast
  next
    case False
    with 3 obtain pre post where "join sep (z # zs) = pre @ x @ post" by auto
    then have "join sep (y # z # zs) = (y @ sep @ pre) @ x @ post" by simp
    then show ?thesis by blast
  qed
qed

lemma strip_trailing_keep_prefix:
  "\<not> list_all (\<lambda>x. x = NL) w \<Longrightarrow>
   strip_trailing_newlines (xs @ w) = xs @ strip_trailing_newlines w"
  by (induction xs) (simp_all add: strip_trailing_Cons)

lemma unbroken_ends:
  assumes "unbroken d"
  shows "d \<noteq> []" "hd d \<noteq> NL" "last d \<noteq> NL" "\<not> contains [NL, NL] d"
proof -
  from assms show ne: "d \<noteq> []" and "\<not> contains [NL, NL] d"
    by (simp_all add: unbroken_def)
  from assms show "hd d \<noteq> NL"
    by (cases d) (auto simp: unbroken_def)
  from assms have "\<not> starts_with [NL] (rev d)"
    by (simp add: unbroken_def)
  moreover from ne have "rev d = last d # rev (butlast d)"
    by (metis append_butlast_last_id rev.simps(2) rev_append rev_rev_ident rev_singleton_conv append_Cons append_Nil)
  ultimately show "last d \<noteq> NL"
    by auto
qed

lemma collapse_unbroken_prefix:
  "d \<noteq> [] \<Longrightarrow> last d \<noteq> NL \<Longrightarrow> \<not> contains [NL, NL] d \<Longrightarrow>
   collapse_newlines (d @ r) = d @ collapse_newlines r"
proof (induction d)
  case Nil
  then show ?case by simp
next
  case (Cons c d)
  show ?case
  proof (cases d)
    case Nil
    with Cons.prems have "c \<noteq> NL" by simp
    then have "collapse_newlines (c # r) = c # collapse_newlines r"
      by (cases r) auto
    with Nil show ?thesis by simp
  next
    case (Cons z zs)
    with Cons.prems have pre: "d \<noteq> []" "last d \<noteq> NL" "\<not> contains [NL, NL] d"
      "\<not> (c = NL \<and> z = NL)"
      by auto
    then have ih: "collapse_newlines (d @ r) = d @ collapse_newlines r"
      using Cons.IH by blast
    have "collapse_newlines (c # z # (zs @ r)) = c # collapse_newlines (z # (zs @ r))"
      using pre(4) by auto
    with ih show ?thesis
      unfolding Cons by simp
  qed
qed

lemma strip_trailing_unbroken_prefix:
  "e \<noteq> [] \<Longrightarrow> last e \<noteq> NL \<Longrightarrow>
   strip_trailing_newlines (e @ r) = e @ strip_trailing_newlines r"
proof (induction e)
  case Nil
  then show ?case by simp
next
  case (Cons c e)
  show ?case
  proof (cases "e = []")
    case True
    with Cons.prems have "c \<noteq> NL" by simp
    with True show ?thesis
      by (simp add: strip_trailing_Cons)
  next
    case False
    with Cons.prems have l: "last e \<noteq> NL" by simp
    from False have "last e \<in> set e" by simp
    with l have "\<not> list_all (\<lambda>x. x = NL) (c # e @ r)"
      by (auto simp: list_all_iff)
    then have "strip_trailing_newlines ((c # e) @ r) = c # strip_trailing_newlines (e @ r)"
      by (simp add: strip_trailing_Cons)
    with Cons.IH[OF False l] show ?thesis by simp
  qed
qed

lemma strip_trailing_around:
  assumes "e \<noteq> []" "last e \<noteq> NL"
  shows "strip_trailing_newlines (xs @ e @ r) = xs @ e @ strip_trailing_newlines r"
proof -
  from assms have "last e \<in> set (e @ r)" by simp
  with assms(2) have "\<not> list_all (\<lambda>x. x = NL) (e @ r)"
    unfolding list_all_iff by blast
  then have "strip_trailing_newlines (xs @ e @ r) = xs @ strip_trailing_newlines (e @ r)"
    by (rule strip_trailing_keep_prefix)
  with assms show ?thesis
    by (simp add: strip_trailing_unbroken_prefix)
qed

lemma imports_before_definitions:
  assumes d: "d \<in> set imps" "unbroken d"
    and e: "e \<in> set others" "unbroken e"
  shows "\<exists>pre mid post.
     strip_trailing_newlines (collapse_newlines (join [NL] imps @ [NL, NL] @ join [NL, NL] others))
       = pre @ d @ mid @ e @ post"
proof -
  note dd = unbroken_ends[OF d(2)] and ee = unbroken_ends[OF e(2)]
  obtain p1 q1 where j1: "join [NL] imps = p1 @ d @ q1"
    using join_member_split[OF d(1)] by blast
  obtain p2 q2 where j2: "join [NL, NL] others = p2 @ e @ q2"
    using join_member_split[OF e(1)] by blast
  define R where "R = q1 @ [NL, NL] @ p2 @ e @ q2"
  define M where "M = q1 @ [NL, NL] @ p2"
  have dR: "d @ R \<noteq> []" "hd (d @ R) \<noteq> NL"
    using dd(1,2) by auto
  have eq2: "e @ q2 \<noteq> []" "hd (e @ q2) \<noteq> NL"
    using ee(1,2) by auto
  have "collapse_newlines (join [NL] imps @ [NL, NL] @ join [NL, NL] others) =
      collapse_newlines (p1 @ (d @ R))"
    by (simp add: j1 j2 R_def)
  also have "\<dots> = collapse_newlines p1 @ collapse_newlines (d @ R)"
    using dR by (rule collapse_append)
  also have "collapse_newlines (d @ R) = d @ collapse_newlines R"
    using dd(1,3,4) by (rule collapse_unbroken_prefix)
  also have "collapse_newlines R = collapse_newlines (M @ (e @ q2))"
    by (simp add: R_def M_def)
  also have "\<dots> = collapse_newlines M @ collapse_newlines (e @ q2)"
    using eq2 by (rule collapse_append)
  also have "collapse_newlines (e @ q2) = e @ collapse_newlines q2"
    using ee(1,3,4) by (rule collapse_unbroken_prefix)
  finally have all: "collapse_newlines (join [NL] imps @ [NL, NL] @ join [NL, NL] others) =
      (collapse_newlines p1 @ d @ collapse_newlines M) @ e @ collapse_newlines q2"
    by simp
  have "strip_trailing_newlines
        ((collapse_newlines p1 @ d @ collapse_newlines M) @ e @ collapse_newlines q2) =
      (collapse_newlines p1 @ d @ collapse_newlines M) @ e @
        strip_trailing_newlines (collapse_newlines q2)"
    using ee(1,3) by (rule strip_trailing_around)
  then have "strip_trailing_newlines
        (collapse_newlines (join [NL] imps @ [NL, NL] @ join [NL, NL] others)) =
      collapse_newlines p1 @ d @ collapse_newlines M @ e @
        strip_trailing_newlines (collapse_newlines q2)"
    unfolding all by simp
  then show ?thesis by blast
qed


lemma strip_trailing_no_triple:
  "\<not> contains p s \<Longrightarrow> \<not> contains p (strip_trailing_newlines s)"
proof -
  obtain t where "s = strip_trailing_newlines s @ t"
    using strip_trailing_prefix by blast
  then show "\<not> contains p s \<Longrightarrow> \<not> contains p (strip_trailing_newlines s)"
    using contains_append[of p "strip_trailing_newlines s" t] by auto
qed

text \<open>
  C5. When the registry exists, \<open>finish\<close> returns a head, three line feeds and the body
  as given. The head, which is the part made from the definitions, never holds three
  line feeds in a row and does not end with a line feed, so that the separator behind
  it is three line feeds and no more. Line feeds apart, the head is the texts of the
  import entries in the order of the table, followed by the texts of the other entries
  in the order of the table. An import entry and another entry that are unbroken (not
  empty, no line feed at either end, no blank line inside) both stand in the head as
  they are, the import first.
\<close>

theorem finish_definitions_part:
  assumes "variableDB st = Some db"
  shows "\<exists>head st'. finish ops st code = Inr (head @ [NL, NL, NL] @ code, st') \<and>
     \<not> contains [NL, NL, NL] head \<and>
     \<not> (\<exists>h. head = h @ [NL]) \<and>
     filter (\<lambda>x. x \<noteq> NL) head =
       concat (map (filter (\<lambda>x. x \<noteq> NL))
         (filter is_import (definition_entries st) @
          filter (\<lambda>d. \<not> is_import d) (definition_entries st))) \<and>
     (\<forall>d e. d \<in> set (definition_entries st) \<and> is_import d \<and> unbroken d \<and>
            e \<in> set (definition_entries st) \<and> \<not> is_import e \<and> unbroken e \<longrightarrow>
        (\<exists>pre mid post. head = pre @ d @ mid @ e @ post))"
proof -
  define defs where "defs = definition_entries st"
  define imps where "imps = filter is_import defs"
  define others where "others = filter (\<lambda>d. \<not> is_import d) defs"
  define allDefs where "allDefs = join [NL] imps @ [NL, NL] @ join [NL, NL] others"
  define head where "head = strip_trailing_newlines (collapse_newlines allDefs)"
  define st' :: "'a cpp_state" where
    "st' = \<lparr>definitions = None, functionNames = None, variableDB = Some (names_reset ops db)\<rparr>"
  have out: "finish ops st code = Inr (head @ [NL, NL, NL] @ code, st')"
    using assms
    by (simp add: finish_def Let_def defs_def definition_entries_def imps_def others_def
        allDefs_def head_def st'_def replace_trailing_newlines_eq)
  have triple: "\<not> contains [NL, NL, NL] head"
    unfolding head_def by (rule strip_trailing_no_triple) (rule collapse_no_triple)
  have final: "\<not> (\<exists>h. head = h @ [NL])"
    unfolding head_def by (rule strip_trailing_no_final_newline)
  have "filter (\<lambda>x. x \<noteq> NL) head = filter (\<lambda>x. x \<noteq> NL) allDefs"
    by (simp add: head_def filter_strip_trailing filter_collapse)
  also have "\<dots> = concat (map (filter (\<lambda>x. x \<noteq> NL)) imps) @
      concat (map (filter (\<lambda>x. x \<noteq> NL)) others)"
    by (simp add: allDefs_def filter_join)
  finally have content: "filter (\<lambda>x. x \<noteq> NL) head =
      concat (map (filter (\<lambda>x. x \<noteq> NL)) (imps @ others))"
    by simp
  have place: "\<exists>pre mid post. head = pre @ d @ mid @ e @ post"
    if "d \<in> set defs" "is_import d" "unbroken d" "e \<in> set defs" "\<not> is_import e" "unbroken e"
    for d e
  proof -
    from that have "d \<in> set imps" "e \<in> set others"
      by (simp_all add: imps_def others_def)
    then show ?thesis
      unfolding head_def allDefs_def using that(3,6)
      by (intro imports_before_definitions)
  qed
  from out triple final content place show ?thesis
    unfolding defs_def imps_def others_def by blast
qed

theorem finish_definitions_part_witness:
  "variableDB sample_state = Some [] \<and>
   (\<exists>head st'. finish (simple_names []) sample_state ''run();'' =
        Inr (head @ [NL, NL, NL] @ ''run();'', st') \<and>
      \<not> contains [NL, NL, NL] head \<and>
      \<not> (\<exists>h. head = h @ [NL]) \<and>
      filter (\<lambda>x. x \<noteq> NL) head = ''import m;var x;int f() {}'' \<and>
      (\<exists>pre mid post. head = pre @ ''import m;'' @ mid @ (''int f() {'' @ [NL] @ ''}'') @ post))"
proof -
  have db: "variableDB sample_state = Some []"
    by (simp add: sample_state_def)
  have entries: "definition_entries sample_state =
      [''var x;'', ''int f() {'' @ [NL] @ ''}'', ''import m;'']"
    by (simp add: sample_state_def definition_entries_def)
  have imp: "is_import ''import m;''" "\<not> is_import ''var x;''"
    "\<not> is_import (''int f() {'' @ [NL] @ ''}'')"
    by (simp_all add: is_import_def is_space_def)
  have u: "unbroken ''import m;''" "unbroken (''int f() {'' @ [NL] @ ''}'')"
    by (simp_all add: unbroken_def NL_def)
  from finish_definitions_part[OF db, of "simple_names []" "''run();''"]
  obtain head st' where
    h: "finish (simple_names []) sample_state ''run();'' = Inr (head @ [NL, NL, NL] @ ''run();'', st')"
      "\<not> contains [NL, NL, NL] head"
      "filter (\<lambda>x. x \<noteq> NL) head =
         concat (map (filter (\<lambda>x. x \<noteq> NL))
           (filter is_import (definition_entries sample_state) @
            filter (\<lambda>d. \<not> is_import d) (definition_entries sample_state)))"
      "\<forall>d e. d \<in> set (definition_entries sample_state) \<and> is_import d \<and> unbroken d \<and>
            e \<in> set (definition_entries sample_state) \<and> \<not> is_import e \<and> unbroken e \<longrightarrow>
        (\<exists>pre mid post. head = pre @ d @ mid @ e @ post)"
      "\<not> (\<exists>h. head = h @ [NL])"
    by blast
  have "''import m;'' \<in> set (definition_entries sample_state)"
       "''int f() {'' @ [NL] @ ''}'' \<in> set (definition_entries sample_state)"
    by (simp_all add: entries)
  with h(4) imp u
  have "\<exists>pre mid post. head = pre @ ''import m;'' @ mid @ (''int f() {'' @ [NL] @ ''}'') @ post"
    by blast
  moreover from h(3) imp have "filter (\<lambda>x. x \<noteq> NL) head = ''import m;var x;int f() {}''"
    unfolding entries by (simp add: NL_def)
  ultimately show ?thesis using db h(1,2,5) by blast
qed

text \<open>
  The body is appended after the collapsing: behind a definition and the three line
  feeds, a body that starts with a line feed gives four line feeds in a row, which
  is three blank lines. And an entry that holds blank lines is collapsed itself, so
  it does not stand in the output as it was entered. With one entry that is no import
  the output begins with two line feeds, and without any entry it is three line feeds,
  three blank lines, and the body.
\<close>

theorem finish_blank_lines_counterexample:
  "finish (simple_names [])
     \<lparr>definitions = Some [(''variables'', ''var x;'')], functionNames = Some [],
      variableDB = Some []\<rparr> (NL # ''run();'') =
   Inr ([NL, NL] @ ''var x;'' @ [NL, NL, NL, NL] @ ''run();'',
        \<lparr>definitions = None, functionNames = None, variableDB = Some []\<rparr>) \<and>
   contains [NL, NL, NL, NL] ([NL, NL] @ ''var x;'' @ [NL, NL, NL, NL] @ ''run();'') \<and>
   is_import (''import a;'' @ [NL, NL, NL] @ ''import b;'') \<and>
   finish (simple_names [])
     \<lparr>definitions = Some [(''imports'', ''import a;'' @ [NL, NL, NL] @ ''import b;'')],
      functionNames = Some [], variableDB = Some []\<rparr> ''run();'' =
   Inr (''import a;'' @ [NL, NL] @ ''import b;'' @ [NL, NL, NL] @ ''run();'',
        \<lparr>definitions = None, functionNames = None, variableDB = Some []\<rparr>) \<and>
   \<not> contains (''import a;'' @ [NL, NL, NL] @ ''import b;'')
       (''import a;'' @ [NL, NL] @ ''import b;'' @ [NL, NL, NL] @ ''run();'') \<and>
   finish (simple_names [])
     \<lparr>definitions = Some [], functionNames = Some [], variableDB = Some []\<rparr> ''go();'' =
   Inr ([NL, NL, NL] @ ''go();'',
        \<lparr>definitions = None, functionNames = None, variableDB = Some []\<rparr>)"
  by (simp add: finish_def is_import_def is_space_def simple_names_def NL_def)


subsection \<open>Numerals: parseInt, number texts and Blockly.isNumber\<close>

lemma digit_char_props: "d < 10 \<Longrightarrow> is_digit (digit_char d) \<and> digit_value (digit_char d) = d"
  by (simp add: is_digit_def digit_char_def digit_value_def)

lemma digits_value_snoc: "digits_value (xs @ [c]) = 10 * digits_value xs + digit_value c"
  by (simp add: digits_value_def)

lemma nat_digits_props:
  "nat_digits n \<noteq> [] \<and> list_all is_digit (nat_digits n) \<and> digits_value (nat_digits n) = n"
proof (induction n rule: nat_digits.induct)
  case (1 n)
  show ?case
  proof (cases "n < 10")
    case True
    then show ?thesis
      by (simp add: nat_digits.simps[of n] digit_char_props digits_value_def)
  next
    case False
    then have ih: "nat_digits (n div 10) \<noteq> []" "list_all is_digit (nat_digits (n div 10))"
      "digits_value (nat_digits (n div 10)) = n div 10"
      using 1 by simp_all
    have m: "n mod 10 < 10" by simp
    have eq: "nat_digits n = nat_digits (n div 10) @ [digit_char (n mod 10)]"
      using False by (simp add: nat_digits.simps[of n])
    show ?thesis
      unfolding eq using ih digit_char_props[OF m]
      by (simp add: digits_value_snoc)
  qed
qed

lemma mathInt10_digits:
  assumes "ds \<noteq> []" "list_all is_digit ds"
  shows "mathInt10 ds = Some (int (digits_value ds))"
    and "mathInt10 (CHR ''-'' # ds) = Some (- int (digits_value ds))"
proof -
  from assms obtain c cs where ds: "ds = c # cs" and c: "is_digit c"
    by (cases ds) auto
  from c have ns: "\<not> is_space c" "c \<noteq> CHR ''-''" "c \<noteq> CHR ''+''"
    by (auto simp: is_digit_def is_space_def)
  have tw: "takeWhile is_digit ds = ds"
    using assms(2) by (simp add: list_all_iff)
  have "mathInt10 (c # cs) = Some (int (digits_value (takeWhile is_digit (c # cs))))"
    using ns c by (simp add: mathInt10_def)
  then show "mathInt10 ds = Some (int (digits_value ds))"
    using tw unfolding ds by (simp only:)
  have "\<not> is_space CHR ''-''"
    by (simp add: is_space_def)
  then have "mathInt10 (CHR ''-'' # c # cs) =
      Some (- int (digits_value (takeWhile is_digit (c # cs))))"
    using c by (simp add: mathInt10_def)
  then show "mathInt10 (CHR ''-'' # ds) = Some (- int (digits_value ds))"
    using tw unfolding ds by (simp only:)
qed

lemma mathInt10_decimal_text: "mathInt10 (decimal_text n) = Some n"
proof (cases "n < 0")
  case True
  then show ?thesis
    using mathInt10_digits(2)[of "nat_digits (nat (- n))"] nat_digits_props[of "nat (- n)"]
    by (simp add: decimal_text_def)
next
  case False
  then show ?thesis
    using mathInt10_digits(1)[of "nat_digits (nat n)"] nat_digits_props[of "nat n"]
    by (simp add: decimal_text_def)
qed

lemma Blockly_isNumber_mathInt10:
  assumes "Blockly_isNumber s"
  shows "\<exists>n. mathInt10 s = Some n"
proof -
  define s1 where "s1 = dropWhile is_space s"
  define s2 where "s2 = (case s1 of c # r \<Rightarrow> (if c = CHR ''-'' then r else s1) | [] \<Rightarrow> s1)"
  from assms have ds: "takeWhile is_digit s2 \<noteq> []"
    unfolding Blockly_isNumber_def Let_def s1_def s2_def by simp
  have plus: "\<not> is_digit CHR ''+''"
    by (simp add: is_digit_def)
  show ?thesis
  proof (cases s1)
    case Nil
    with ds show ?thesis by (simp add: s2_def)
  next
    case (Cons c r)
    show ?thesis
    proof (cases "c = CHR ''-''")
      case True
      with Cons ds show ?thesis
        by (simp add: mathInt10_def Let_def s1_def[symmetric] s2_def)
    next
      case False
      with Cons ds have "c \<noteq> CHR ''+''"
        using plus by (auto simp: s2_def)
      with False Cons ds show ?thesis
        by (simp add: mathInt10_def Let_def s1_def[symmetric] s2_def)
    qed
  qed
qed

lemma digit_value_le: "is_digit c \<Longrightarrow> digit_value c \<le> 9"
  unfolding is_digit_def digit_value_def by arith

lemma digits_value_bound: "list_all is_digit ds \<Longrightarrow> digits_value ds < 10 ^ length ds"
proof (induction ds rule: rev_induct)
  case Nil
  show ?case by (simp add: digits_value_def)
next
  case (snoc c ds)
  then have "digits_value ds < 10 ^ length ds" "digit_value c \<le> 9"
    by (simp_all add: digit_value_le)
  then have "10 * digits_value ds + digit_value c < 10 * 10 ^ length ds"
    by linarith
  then show ?case
    by (simp add: digits_value_snoc)
qed

lemma toward_zero_parts:
  assumes "f < 10 ^ k"
  shows "toward_zero (of_nat i + of_nat f / 10 ^ k) = int i"
    and "toward_zero (- (of_nat i + of_nat f / 10 ^ k)) = - int i"
proof -
  define x :: rat where "x = of_nat f / 10 ^ k"
  have x: "0 \<le> x" "x < 1"
    using assms by (simp_all add: x_def)
  have fl: "\<lfloor>of_nat i + x\<rfloor> = int i"
    using x by (simp add: floor_eq_iff)
  have ce: "\<lceil>- (of_nat i + x)\<rceil> = - int i"
    using fl by (simp add: ceiling_def)
  have nn: "0 \<le> of_nat i + x"
    using x by simp
  show "toward_zero (of_nat i + of_nat f / 10 ^ k) = int i"
    using fl nn by (simp add: toward_zero_def x_def)
  show "toward_zero (- (of_nat i + of_nat f / 10 ^ k)) = - int i"
  proof (cases "of_nat i + x = 0")
    case True
    then have "int i = 0" using fl by simp
    with True show ?thesis by (simp add: toward_zero_def x_def[symmetric])
  next
    case False
    with nn have "\<not> 0 \<le> - (of_nat i + x)" by simp
    with ce show ?thesis by (simp add: toward_zero_def x_def[symmetric])
  qed
qed

lemma Blockly_isNumber_truncated:
  assumes "Blockly_isNumber s"
  shows "mathInt10 s = Some (toward_zero (numeral_value s))"
proof -
  define s1 where "s1 = dropWhile is_space s"
  define negative where "negative = (case s1 of c # _ \<Rightarrow> c = CHR ''-'' | [] \<Rightarrow> False)"
  define s2 where "s2 = (if negative then tl s1 else s1)"
  define ip where "ip = takeWhile is_digit s2"
  define s3 where "s3 = dropWhile is_digit s2"
  define fp where "fp = (case s3 of c # r \<Rightarrow> (if c = CHR ''.'' then takeWhile is_digit r else [])
      | [] \<Rightarrow> [])"
  have s2_alt: "s2 = (case s1 of c # r \<Rightarrow> (if c = CHR ''-'' then r else s1) | [] \<Rightarrow> s1)"
    by (cases s1) (simp_all add: s2_def negative_def)
  from assms have ip: "ip \<noteq> []"
    unfolding Blockly_isNumber_def Let_def ip_def s2_alt s1_def by simp
  have "list_all is_digit fp"
    by (cases s3) (auto simp: fp_def list_all_iff dest: set_takeWhileD)
  then have bound: "digits_value fp < 10 ^ length fp"
    by (rule digits_value_bound)
  have nv: "numeral_value s =
      (if negative then - (of_nat (digits_value ip) + of_nat (digits_value fp) / 10 ^ length fp)
       else of_nat (digits_value ip) + of_nat (digits_value fp) / 10 ^ length fp)"
    unfolding numeral_value_def Let_def fp_def s3_def ip_def s2_def negative_def s1_def by simp
  have plus: "\<not> is_digit CHR ''+''"
    by (simp add: is_digit_def)
  have pi: "mathInt10 s = Some ((if negative then - 1 else 1) * int (digits_value ip))"
  proof (cases s1)
    case Nil
    then have "ip = []" by (simp add: ip_def s2_def)
    with ip show ?thesis by simp
  next
    case (Cons c r)
    show ?thesis
    proof (cases "c = CHR ''-''")
      case True
      with Cons ip show ?thesis
        by (simp add: mathInt10_def Let_def s1_def[symmetric] ip_def s2_def negative_def)
    next
      case False
      with Cons ip have "c \<noteq> CHR ''+''"
        using plus by (auto simp: ip_def s2_def negative_def)
      with False Cons ip show ?thesis
        by (simp add: mathInt10_def Let_def s1_def[symmetric] ip_def s2_def negative_def)
    qed
  qed
  show ?thesis
    unfolding pi nv using toward_zero_parts[OF bound, of "digits_value ip"] by simp
qed

lemma Blockly_isNumber_decimal_text: "Blockly_isNumber (decimal_text n)"
proof -
  have d: "\<And>m. Blockly_isNumber (nat_digits m) \<and> Blockly_isNumber (CHR ''-'' # nat_digits m)"
  proof -
    fix m
    from nat_digits_props[of m] obtain c cs where
      e: "nat_digits m = c # cs" and a: "list_all is_digit (c # cs)"
      by (cases "nat_digits m") auto
    from a have c: "is_digit c" by simp
    then have ns: "\<not> is_space c" "c \<noteq> CHR ''-''"
      by (auto simp: is_digit_def is_space_def)
    have tw: "takeWhile is_digit (c # cs) = c # cs" "dropWhile is_digit (c # cs) = []"
      using a by (simp_all add: list_all_iff)
    have m: "\<not> is_space CHR ''-''"
      by (simp add: is_space_def)
    have sp: "dropWhile is_space (c # cs) = c # cs"
      "dropWhile is_space (CHR ''-'' # c # cs) = CHR ''-'' # c # cs"
      using ns m by simp_all
    have "Blockly_isNumber (c # cs)"
      unfolding Blockly_isNumber_def Let_def sp using ns(2)
      by (simp add: tw del: takeWhile.simps dropWhile.simps)
    moreover have "Blockly_isNumber (CHR ''-'' # c # cs)"
      unfolding Blockly_isNumber_def Let_def sp
      by (simp add: tw del: takeWhile.simps dropWhile.simps)
    ultimately show "Blockly_isNumber (nat_digits m) \<and> Blockly_isNumber (CHR ''-'' # nat_digits m)"
      unfolding e by simp
  qed
  show ?thesis
    using d by (simp add: decimal_text_def)
qed



lemma round_nat_small: "n < 2 ^ 53 \<Longrightarrow> round_nat n = n"
  by (simp add: round_nat_def)

lemma to_number_small: "\<bar>i\<bar> < 2 ^ 53 \<Longrightarrow> to_number i = Num i"
proof -
  assume a: "\<bar>i\<bar> < 2 ^ 53"
  then have "nat \<bar>i\<bar> < 2 ^ 53"
    by simp
  then have r: "round_nat (nat \<bar>i\<bar>) = nat \<bar>i\<bar>"
    by (rule round_nat_small)
  have "(2::nat) ^ 53 \<le> 2 ^ 1024"
    by (rule power_increasing) simp_all
  with \<open>nat \<bar>i\<bar> < 2 ^ 53\<close> have "\<not> nat \<bar>i\<bar> \<ge> 2 ^ 1024"
    by linarith
  then show ?thesis
    unfolding to_number_def Let_def r by auto
qed

lemma safe_below_20_digits: "\<bar>i\<bar> < 2 ^ 53 \<Longrightarrow> \<not> \<bar>i::int\<bar> \<ge> 10 ^ 20"
  by simp

lemma minus_sign_decimal_text: "minus_sign (decimal_text n) = (n < 0)"
proof -
  have d: "\<And>m. \<not> minus_sign (nat_digits m)"
  proof -
    fix m
    from nat_digits_props[of m] obtain c cs where
      e: "nat_digits m = c # cs" and c: "is_digit c"
      by (cases "nat_digits m") auto
    from c have "\<not> is_space c" "c \<noteq> CHR ''-''"
      by (auto simp: is_digit_def is_space_def)
    then show "\<not> minus_sign (nat_digits m)"
      unfolding e by (simp add: minus_sign_def)
  qed
  have "\<not> is_space CHR ''-''"
    by (simp add: is_space_def)
  then have "\<And>m. minus_sign (CHR ''-'' # nat_digits m)"
    by (simp add: minus_sign_def)
  with d show ?thesis
    by (simp add: decimal_text_def)
qed

lemma parseInt10_decimal_text:
  assumes "\<bar>n\<bar> < 2 ^ 53"
  shows "parseInt10 (decimal_text n) = Num n"
  using assms
  by (simp add: parseInt10_def mathInt10_decimal_text to_number_small minus_sign_decimal_text)

lemma Blockly_isNumber_parseInt10_truncated:
  assumes "Blockly_isNumber s" and "\<bar>toward_zero (numeral_value s)\<bar> < 10 ^ 20"
  shows "parseInt10 s =
     (if toward_zero (numeral_value s) = 0 \<and> minus_sign s then NegZero
      else to_number (toward_zero (numeral_value s)))"
  using assms by (simp add: parseInt10_def Blockly_isNumber_truncated)

lemma bit_length_54: "bit_length 9007199254740993 = 54"
  by (simp add: bit_length.simps)

lemma round_nat_big: "round_nat 9007199254740993 = 9007199254740992"
  by (simp add: round_nat_def bit_length_54)

lemma to_number_big: "to_number 9007199254740993 = Num 9007199254740992"
  by (simp add: to_number_def round_nat_big)


subsection \<open>getAdjusted\<close>

lemmas eval_defs = getAdjusted_def resolved_at_def adjusted_delta_def required_order_def
  defaultAtIndex_def valueToCode_def getInputTargetBlock_def or_default_def
  simple_generator_def value_block_def index_block_def zero_based_def one_based_def
  ORDER_ADDITIVE_def ORDER_NONE_def ORDER_UNARY_PREFIX_def ORDER_MULTIPLICATIVE_def
  Blockly_isNumber_def is_space_def is_digit_def parseInt10_def mathInt10_def minus_sign_def
  digits_value_def digit_value_def number_toString_def to_number_small

lemma decimal_text_1: "decimal_text 1 = ''1''"
  by code_simp

lemma decimal_text_2: "decimal_text 2 = ''2''"
  by code_simp

lemma decimal_text_nonneg_digits: "0 \<le> n \<Longrightarrow> list_all is_digit (decimal_text n)"
  using nat_digits_props[of "nat n"] by (simp add: decimal_text_def)

text \<open>
  C1. When the resolved operand is not a literal numeral and the delta, after the
  one-based adjustment, is an integer that is not zero and whose magnitude is below
  \<open>2 ^ 53\<close>, \<open>getAdjusted\<close> returns a text. Without negation the text is the operand,
  \<open>+\<close> and the delta when the delta is positive, and the operand, \<open>-\<close> and the
  magnitude of the delta when it is negative, in parentheses exactly when the order
  required by the caller (\<open>ORDER_NONE\<close> when none or 0 is given) is greater than or
  equal to the additive order. With negation the text is \<open>-(...)\<close> around that
  expression, in parentheses exactly when the required order is greater than or equal
  to the order of a unary prefix. The delta is written as its decimal text, the
  magnitude with digits only.
\<close>

theorem getAdjusted_dynamic_operand:
  assumes "\<not> isNumber g (resolved_at g ws b atId opt_delta opt_negate opt_order)"
    and "adjusted_delta ws opt_delta = Num d" and "d \<noteq> 0" and "\<bar>d\<bar> < 2 ^ 53"
  shows "getAdjusted g ws b atId opt_delta opt_negate opt_order =
     JString
       (let operand = resolved_at g ws b atId opt_delta opt_negate opt_order;
            expr = (if d > 0 then operand @ '' + '' @ decimal_text d
                    else operand @ '' - '' @ decimal_text \<bar>d\<bar>)
        in if opt_negate then
             (if required_order opt_order \<ge> ORDER_UNARY_PREFIX
              then ''('' @ ''-('' @ expr @ '')'' @ '')'' else ''-('' @ expr @ '')'')
           else
             (if required_order opt_order \<ge> ORDER_ADDITIVE
              then ''('' @ expr @ '')'' else expr)) \<and>
     list_all is_digit (decimal_text \<bar>d\<bar>)"
proof
  show "list_all is_digit (decimal_text \<bar>d\<bar>)"
    by (rule decimal_text_nonneg_digits) simp
next
  have o: "ORDER_ADDITIVE \<noteq> 0" "ORDER_UNARY_PREFIX \<noteq> 0"
    by (simp_all add: ORDER_ADDITIVE_def ORDER_UNARY_PREFIX_def)
  have t: "number_toString \<bar>d\<bar> = Some (decimal_text \<bar>d\<bar>)"
    using assms(4) by (simp add: number_toString_def)
  show "getAdjusted g ws b atId opt_delta opt_negate opt_order =
     JString
       (let operand = resolved_at g ws b atId opt_delta opt_negate opt_order;
            expr = (if d > 0 then operand @ '' + '' @ decimal_text d
                    else operand @ '' - '' @ decimal_text \<bar>d\<bar>)
        in if opt_negate then
             (if required_order opt_order \<ge> ORDER_UNARY_PREFIX
              then ''('' @ ''-('' @ expr @ '')'' @ '')'' else ''-('' @ expr @ '')'')
           else
             (if required_order opt_order \<ge> ORDER_ADDITIVE
              then ''('' @ expr @ '')'' else expr))"
  proof (cases "d > 0")
    case True
    then have "\<bar>d\<bar> = d" by simp
    with True assms(1,2,3) o t show ?thesis
      by (simp add: getAdjusted_def Let_def)
  next
    case False
    with assms(3) have neg: "d < 0" by simp
    with assms(1,2,3) o t show ?thesis
      by (simp add: getAdjusted_def Let_def)
  qed
qed

theorem getAdjusted_dynamic_operand_witness:
  "\<not> isNumber simple_generator
       (resolved_at simple_generator zero_based (index_block (Some (value_block ''i''))) ''AT''
          (Some (Num (- 2))) True (Some ORDER_ADDITIVE)) \<and>
   adjusted_delta zero_based (Some (Num (- 2))) = Num (- 2) \<and>
   getAdjusted simple_generator zero_based (index_block (Some (value_block ''i''))) ''AT''
      (Some (Num (- 2))) True (Some ORDER_ADDITIVE) = JString ''(-(i - 2))''"
proof -
  have r: "resolved_at simple_generator zero_based (index_block (Some (value_block ''i''))) ''AT''
          (Some (Num (- 2))) True (Some ORDER_ADDITIVE) = ''i''"
    by (simp add: eval_defs)
  have h1: "\<not> isNumber simple_generator
       (resolved_at simple_generator zero_based (index_block (Some (value_block ''i''))) ''AT''
          (Some (Num (- 2))) True (Some ORDER_ADDITIVE))"
    unfolding r by (simp add: eval_defs)
  have h2: "adjusted_delta zero_based (Some (Num (- 2))) = Num (- 2)"
    by (simp add: eval_defs)
  have h3: "(- 2::int) \<noteq> 0" "\<bar>- 2::int\<bar> < 2 ^ 53"
    by simp_all
  from getAdjusted_dynamic_operand[OF h1 h2 h3]
  have "getAdjusted simple_generator zero_based (index_block (Some (value_block ''i''))) ''AT''
      (Some (Num (- 2))) True (Some ORDER_ADDITIVE) = JString ''(-(i - 2))''"
    unfolding r
    by (simp add: decimal_text_2 required_order_def ORDER_ADDITIVE_def ORDER_UNARY_PREFIX_def)
  with h1 h2 show ?thesis by blast
qed

text \<open>
  The parentheses go the other way round than "required order at most additive": under
  the multiplicative order (3, below the additive 4) there are none, under
  \<open>ORDER_NONE\<close> (99) there are. With negation the text is the negated expression.
\<close>

theorem getAdjusted_parentheses_counterexample:
  "\<not> Blockly_isNumber ''i'' \<and>
   getAdjusted simple_generator zero_based (index_block (Some (value_block ''i''))) ''AT''
      (Some (Num 1)) False (Some ORDER_MULTIPLICATIVE) = JString ''i + 1'' \<and>
   ORDER_MULTIPLICATIVE \<le> ORDER_ADDITIVE \<and>
   getAdjusted simple_generator zero_based (index_block (Some (value_block ''i''))) ''AT''
      (Some (Num 1)) False (Some ORDER_NONE) = JString ''(i + 1)'' \<and>
   \<not> ORDER_NONE \<le> ORDER_ADDITIVE \<and>
   getAdjusted simple_generator zero_based (index_block (Some (value_block ''i''))) ''AT''
      (Some (Num 1)) True (Some ORDER_UNARY_POSTFIX) = JString ''-(i + 1)''"
  by (simp add: eval_defs decimal_text_1 ORDER_UNARY_POSTFIX_def)

lemma js_add_exact:
  "\<bar>a + b\<bar> < 2 ^ 53 \<Longrightarrow> js_add (Num a) (Num b) = Num (a + b)"
  by (simp add: to_number_small)

text \<open>
  C2. When the resolved operand is a literal numeral and the delta, after the one-based
  adjustment, is not zero, \<open>getAdjusted\<close> never returns a text; it returns the number
  that \<open>parseInt\<close> reads from the operand plus the delta, in the arithmetic of doubles,
  negated when negation is requested. While the operand, the delta and their sum are
  integers of magnitude below \<open>2 ^ 53\<close>, this is the operand plus the delta for an
  operand that is the text of an integer, and for an operand that \<open>Blockly.isNumber\<close>
  accepts it is the value of the numeral rounded toward zero, plus the delta.
\<close>

theorem getAdjusted_literal_folded:
  assumes "isNumber g (resolved_at g ws b atId opt_delta opt_negate opt_order)"
    and "js_truthy (adjusted_delta ws opt_delta)"
  shows "(\<forall>s. getAdjusted g ws b atId opt_delta opt_negate opt_order \<noteq> JString s) \<and>
     getAdjusted g ws b atId opt_delta opt_negate opt_order \<noteq> JUnmodelled \<and>
     getAdjusted g ws b atId opt_delta opt_negate opt_order =
       JNumber
         (let sum = js_add (parseInt10 (resolved_at g ws b atId opt_delta opt_negate opt_order))
                      (adjusted_delta ws opt_delta)
          in if opt_negate then js_neg sum else sum) \<and>
     (\<forall>n d. resolved_at g ws b atId opt_delta opt_negate opt_order = decimal_text n \<and>
        adjusted_delta ws opt_delta = Num d \<and>
        \<bar>n\<bar> < 2 ^ 53 \<and> \<bar>d\<bar> < 2 ^ 53 \<and> \<bar>n + d\<bar> < 2 ^ 53 \<longrightarrow>
        getAdjusted g ws b atId opt_delta opt_negate opt_order =
          JNumber (if opt_negate then js_neg (Num (n + d)) else Num (n + d))) \<and>
     (\<forall>t d. Blockly_isNumber (resolved_at g ws b atId opt_delta opt_negate opt_order) \<and>
        t = toward_zero (numeral_value (resolved_at g ws b atId opt_delta opt_negate opt_order)) \<and>
        adjusted_delta ws opt_delta = Num d \<and>
        \<bar>t\<bar> < 2 ^ 53 \<and> \<bar>d\<bar> < 2 ^ 53 \<and> \<bar>t + d\<bar> < 2 ^ 53 \<longrightarrow>
        getAdjusted g ws b atId opt_delta opt_negate opt_order =
          JNumber (if opt_negate then js_neg (Num (t + d)) else Num (t + d)))"
proof -
  let ?at = "resolved_at g ws b atId opt_delta opt_negate opt_order"
  let ?res = "getAdjusted g ws b atId opt_delta opt_negate opt_order"
  have lit: "?res = JNumber (let sum = js_add (parseInt10 ?at) (adjusted_delta ws opt_delta)
                             in if opt_negate then js_neg sum else sum)"
    using assms(1) by (simp add: getAdjusted_def Let_def)
  have a: "\<forall>s. ?res \<noteq> JString s" "?res \<noteq> JUnmodelled"
    unfolding lit by simp_all
  have c: "?res = JNumber (if opt_negate then js_neg (Num (n + d)) else Num (n + d))"
    if "?at = decimal_text n" "adjusted_delta ws opt_delta = Num d" "\<bar>n\<bar> < 2 ^ 53"
      "\<bar>n + d\<bar> < 2 ^ 53" for n d
  proof -
    have p: "parseInt10 ?at = Num n"
      unfolding that(1) using that(3) by (rule parseInt10_decimal_text)
    have "js_add (Num n) (Num d) = Num (n + d)"
      using that(4) by (rule js_add_exact)
    then show ?thesis
      unfolding lit p that(2) Let_def by (simp only:)
  qed
  have e: "?res = JNumber (if opt_negate then js_neg (Num (t + d)) else Num (t + d))"
    if "Blockly_isNumber ?at" "t = toward_zero (numeral_value ?at)"
      "adjusted_delta ws opt_delta = Num d" "\<bar>t\<bar> < 2 ^ 53" "\<bar>t + d\<bar> < 2 ^ 53" for t d
  proof -
    from that(4) have "\<bar>t\<bar> < 10 ^ 20" by simp
    with that(1,2) have p: "parseInt10 ?at =
        (if t = 0 \<and> minus_sign ?at then NegZero else to_number t)"
      using Blockly_isNumber_parseInt10_truncated[of ?at] by simp
    have "js_add (parseInt10 ?at) (Num d) = Num (t + d)"
    proof (cases "t = 0 \<and> minus_sign ?at")
      case True
      with p show ?thesis by simp
    next
      case False
      with p have "parseInt10 ?at = to_number t"
        by simp
      also have "\<dots> = Num t"
        using that(4) by (rule to_number_small)
      finally have q: "parseInt10 ?at = Num t" .
      show ?thesis
        unfolding q using that(5) by (rule js_add_exact)
    qed
    then show ?thesis
      unfolding lit that(3) Let_def by (simp only:)
  qed
  from lit a c e show ?thesis by blast
qed

theorem getAdjusted_literal_folded_witness:
  "isNumber simple_generator
       (resolved_at simple_generator one_based (index_block (Some (value_block ''41''))) ''AT''
          (Some (Num 2)) True None) \<and>
   js_truthy (adjusted_delta one_based (Some (Num 2))) \<and>
   getAdjusted simple_generator one_based (index_block (Some (value_block ''41''))) ''AT''
      (Some (Num 2)) True None = JNumber (Num (- 42))"
proof -
  have r: "resolved_at simple_generator one_based (index_block (Some (value_block ''41''))) ''AT''
          (Some (Num 2)) True None = ''41''"
    by (simp add: eval_defs)
  have h1: "isNumber simple_generator
       (resolved_at simple_generator one_based (index_block (Some (value_block ''41''))) ''AT''
          (Some (Num 2)) True None)"
    unfolding r by (simp add: eval_defs)
  have d: "adjusted_delta one_based (Some (Num 2)) = Num 1"
    by (simp add: eval_defs)
  then have h2: "js_truthy (adjusted_delta one_based (Some (Num 2)))"
    by simp
  have n: "''41'' = decimal_text 41"
    by code_simp
  have b: "\<bar>41::int\<bar> < 2 ^ 53" "\<bar>1::int\<bar> < 2 ^ 53" "\<bar>41 + 1::int\<bar> < 2 ^ 53"
    by simp_all
  have r': "resolved_at simple_generator one_based (index_block (Some (value_block ''41''))) ''AT''
          (Some (Num 2)) True None = decimal_text 41"
    using r n by (simp only:)
  from getAdjusted_literal_folded[OF h1 h2] r' d b
  have "getAdjusted simple_generator one_based (index_block (Some (value_block ''41''))) ''AT''
      (Some (Num 2)) True None = JNumber (if True then js_neg (Num (41 + 1)) else Num (41 + 1))"
    by blast
  then have "getAdjusted simple_generator one_based (index_block (Some (value_block ''41''))) ''AT''
      (Some (Num 2)) True None = JNumber (Num (- 42))"
    by simp
  with h1 h2 show ?thesis by blast
qed

text \<open>
  For the literal \<open>1.5\<close> and the delta 1 the result is the number 2, which is not the
  operand plus the delta. For the literal \<open>9007199254740993\<close>, which is \<open>2 ^ 53 + 1\<close>,
  and the delta 1 the result is the number \<open>2 ^ 53\<close>: the operand is rounded to a
  double when it is parsed, and so is the sum.
\<close>

theorem getAdjusted_fraction_counterexample:
  "Blockly_isNumber ''1.5'' \<and>
   numeral_value ''1.5'' = 3 / 2 \<and>
   getAdjusted simple_generator zero_based (index_block (Some (value_block ''1.5''))) ''AT''
      (Some (Num 1)) False None = JNumber (Num 2) \<and>
   rat_of_int 2 \<noteq> numeral_value ''1.5'' + rat_of_int 1 \<and>
   Blockly_isNumber ''9007199254740993'' \<and>
   getAdjusted simple_generator zero_based
      (index_block (Some (value_block ''9007199254740993''))) ''AT''
      (Some (Num 1)) False None = JNumber (Num 9007199254740992) \<and>
   (9007199254740992::int) \<noteq> 9007199254740993 + 1"
  by (simp add: eval_defs numeral_value_def to_number_big)









subsection \<open>scrub and statement chains\<close>

lemma sample_next:
  "nextBlock sample_chain = Some (Block ''step_b'' [] False None []
         (Some (Some (Block ''step_c'' [] False None [] (Some None)))))"
  "nextBlock (Block ''step_b'' [] False None []
         (Some (Some (Block ''step_c'' [] False None [] (Some None))))) =
     Some (Block ''step_c'' [] False None [] (Some None))"
  "nextBlock (Block ''step_c'' [] False None [] (Some None)) = None"
  by (simp_all add: sample_chain_def nextBlock_def)

text \<open>
  C3. For a chain of three statement blocks, a connected to b connected to c, the text
  generated from a is the comment text of a, the code of a, the comment text of b, the
  code of b, the comment text of c, the code of c and what follows c, in this order:
  the comment of a block stands before its code, and the blocks follow the chain.
\<close>

theorem statement_chain_order:
  assumes "nextBlock a = Some b" and "nextBlock b = Some c"
  shows "blockToCode g (Some a) =
     commentCode g a @ blockCode g a @ commentCode g b @ blockCode g b @
     commentCode g c @ blockCode g c @ blockToCode g (nextBlock c) \<and>
   (\<forall>code. scrub g a code = commentCode g a @ code @ blockToCode g (Some b))"
  using assms by simp

theorem statement_chain_order_witness:
  "nextBlock sample_chain = Some (Block ''step_b'' [] False None []
         (Some (Some (Block ''step_c'' [] False None [] (Some None))))) \<and>
   nextBlock (Block ''step_b'' [] False None []
         (Some (Some (Block ''step_c'' [] False None [] (Some None))))) =
     Some (Block ''step_c'' [] False None [] (Some None)) \<and>
   blockToCode simple_generator (Some sample_chain) =
     ''// first'' @ [NL] @ ''step_a;'' @ [NL] @ ''step_b;'' @ [NL] @ ''step_c;'' @ [NL]"
proof -
  have c: "commentCode simple_generator sample_chain = ''// first'' @ [NL]"
    "commentCode simple_generator (Block ''step_b'' [] False None []
         (Some (Some (Block ''step_c'' [] False None [] (Some None))))) = []"
    "commentCode simple_generator (Block ''step_c'' [] False None [] (Some None)) = []"
    by (simp_all add: commentCode_def simple_generator_def sample_chain_def NL_def)
  have b: "blockCode simple_generator sample_chain = ''step_a;'' @ [NL]"
    "blockCode simple_generator (Block ''step_b'' [] False None []
         (Some (Some (Block ''step_c'' [] False None [] (Some None))))) = ''step_b;'' @ [NL]"
    "blockCode simple_generator (Block ''step_c'' [] False None [] (Some None)) = ''step_c;'' @ [NL]"
    by (simp_all add: simple_generator_def sample_chain_def)
  note t = statement_chain_order[OF sample_next(1) sample_next(2), of simple_generator,
      THEN conjunct1]
  have "blockToCode simple_generator (Some sample_chain) =
     ''// first'' @ [NL] @ ''step_a;'' @ [NL] @ ''step_b;'' @ [NL] @ ''step_c;'' @ [NL]"
    unfolding t c b sample_next(3) blockToCode.simps(1) by simp
  with sample_next(1,2) show ?thesis by blast
qed

text \<open>
  In the text generated for the sample chain the comment of the first block stands at
  the very start and nowhere else, so the code of the first block does not precede it.
\<close>

theorem comment_before_code_counterexample:
  "commentCode simple_generator sample_chain = ''// first'' @ [NL] \<and>
   blockCode simple_generator sample_chain = ''step_a;'' @ [NL] \<and>
   blockToCode simple_generator (Some sample_chain) =
     ''// first'' @ [NL] @ ''step_a;'' @ [NL] @ ''step_b;'' @ [NL] @ ''step_c;'' @ [NL] \<and>
   \<not> contains (''// first'' @ [NL]) (tl (blockToCode simple_generator (Some sample_chain)))"
  by (simp add: commentCode_def simple_generator_def sample_chain_def nextBlock_def NL_def)

subsection \<open>init and generation passes\<close>

lemma length_getNames: "length (fst (getNames ops db vs)) = length vs"
  by (induction vs arbitrary: db) (simp_all add: split_beta Let_def)

text \<open>
  C6. \<open>init\<close> sets the definition table and the table of function names to new
  dictionaries, and the registry to a new one when there was none and to the reset
  one otherwise. The definition table gets the entry \<open>variables\<close>, listing the names
  that the registry gives for the variables in order, exactly when the workspace has
  a variable.
\<close>

theorem init_resets_state:
  "(let db0 = (case variableDB st of
                 None \<Rightarrow> names_new ops RESERVED_WORDS
               | Some db \<Rightarrow> names_reset ops db);
        resolved = getNames ops db0 (getAllVariables ws)
    in definitions (init ops st ws) =
         Some (if getAllVariables ws = [] then []
               else [(''variables'', ''var '' @ join '', '' (fst resolved) @ '';'')]) \<and>
       functionNames (init ops st ws) = Some [] \<and>
       variableDB (init ops st ws) = Some (snd resolved) \<and>
       length (fst resolved) = length (getAllVariables ws)) \<and>
   (\<exists>d. definitions (init ops st ws) = Some d \<and>
        (map_of d ''variables'' \<noteq> None) = (getAllVariables ws \<noteq> []))"
  by (cases "getAllVariables ws = []")
    (simp_all add: init_def Let_def split_beta length_getNames)

theorem init_resets_state_witness:
  "definitions (init (simple_names [''var'']) initial_state counting_workspace) =
     Some [(''variables'', ''var count, var2;'')] \<and>
   functionNames (init (simple_names [''var'']) initial_state counting_workspace) = Some [] \<and>
   variableDB (init (simple_names [''var'']) initial_state counting_workspace) =
     Some [(''count_VARIABLE'', ''count''), (''var_VARIABLE'', ''var2'')] \<and>
   definitions (init (simple_names [''var'']) sample_state empty_workspace) = Some [] \<and>
   variableDB (init (simple_names [''var'']) sample_state empty_workspace) = Some []"
proof -
  have g: "getNames (simple_names [''var'']) [] (getAllVariables counting_workspace) =
      ([''count'', ''var2''], [(''count_VARIABLE'', ''count''), (''var_VARIABLE'', ''var2'')])"
    by code_simp
  have n: "names_new (simple_names [''var'']) RESERVED_WORDS = []"
    "names_reset (simple_names [''var'']) [] = []"
    by (simp_all add: simple_names_def)
  have v: "variableDB (initial_state :: (string \<times> string) list cpp_state) = None"
    "variableDB sample_state = Some []"
    by (simp_all add: initial_state_def sample_state_def)
  have w: "getAllVariables counting_workspace \<noteq> []" "getAllVariables empty_workspace = []"
    by (simp_all add: counting_workspace_def empty_workspace_def)
  from init_resets_state[where st = "initial_state :: (string \<times> string) list cpp_state"
      and ops = "simple_names [''var'']" and ws = counting_workspace]
  have a: "definitions (init (simple_names [''var'']) initial_state counting_workspace) =
     Some [(''variables'', ''var count, var2;'')] \<and>
   functionNames (init (simple_names [''var'']) initial_state counting_workspace) = Some [] \<and>
   variableDB (init (simple_names [''var'']) initial_state counting_workspace) =
     Some [(''count_VARIABLE'', ''count''), (''var_VARIABLE'', ''var2'')]"
    using w(1) by (simp add: Let_def v n g)
  from init_resets_state[where st = sample_state and ops = "simple_names [''var'']"
      and ws = empty_workspace]
  have b: "definitions (init (simple_names [''var'']) sample_state empty_workspace) = Some [] \<and>
   variableDB (init (simple_names [''var'']) sample_state empty_workspace) = Some []"
    by (simp add: Let_def v w(2) n)
  from a b show ?thesis by blast
qed

text \<open>
  C8. For a registry whose \<open>reset\<close> gives the registry as it is created, \<open>init\<close> leads
  to the same state from every state, so a pass that starts after another pass returns
  what it returns as the first pass ever, and a pass run again from the state it left
  returns the same text; \<open>finish\<close> leaves no definition table and the registry reset.
\<close>

theorem passes_independent:
  assumes "\<forall>db. names_reset ops db = names_new ops RESERVED_WORDS"
  shows "init ops st ws = init ops initial_state ws \<and>
     generation_pass ops ws body st = generation_pass ops ws body initial_state \<and>
     (\<forall>out st'. generation_pass ops ws body st = Inr (out, st') \<longrightarrow>
        generation_pass ops ws body st' = Inr (out, st')) \<and>
     (\<forall>code out st'. finish ops st code = Inr (out, st') \<longrightarrow>
        definitions st' = None \<and> functionNames st' = None \<and>
        variableDB st' = Some (names_new ops RESERVED_WORDS))"
proof -
  have i: "init ops s ws = init ops initial_state ws" for s
    using assms by (simp add: init_def initial_state_def split: option.split)
  have p: "generation_pass ops ws body s = generation_pass ops ws body initial_state" for s
    unfolding generation_pass_def i[of s] ..
  have twice: "\<forall>out st'. generation_pass ops ws body st = Inr (out, st') \<longrightarrow>
        generation_pass ops ws body st' = Inr (out, st')"
  proof (intro allI impI)
    fix out st'
    assume a: "generation_pass ops ws body st = Inr (out, st')"
    have "generation_pass ops ws body st' = generation_pass ops ws body st"
      using p[of st'] p[of st] by (rule trans[OF _ sym])
    with a show "generation_pass ops ws body st' = Inr (out, st')"
      by (rule trans[rotated])
  qed
  have f: "\<forall>code out st'. finish ops st code = Inr (out, st') \<longrightarrow>
        definitions st' = None \<and> functionNames st' = None \<and>
        variableDB st' = Some (names_new ops RESERVED_WORDS)"
    using assms by (auto simp: finish_def Let_def split: option.splits)
  from i[of st] p[of st] twice f show ?thesis by blast
qed

theorem passes_independent_witness:
  "(\<forall>db. names_reset (simple_names [''var'']) db = names_new (simple_names [''var'']) RESERVED_WORDS) \<and>
   generation_pass (simple_names [''var'']) counting_workspace (call_body (simple_names [''var'']))
       initial_state =
     Inr ([NL, NL] @ ''var count, var2;'' @ [NL, NL, NL] @ ''count2();'' @ [NL],
          \<lparr>definitions = None, functionNames = None, variableDB = Some []\<rparr>) \<and>
   generation_pass (simple_names [''var'']) empty_workspace (call_body (simple_names [''var'']))
       \<lparr>definitions = None, functionNames = None, variableDB = Some []\<rparr> =
     Inr ([NL, NL, NL] @ ''count();'' @ [NL],
          \<lparr>definitions = None, functionNames = None, variableDB = Some []\<rparr>)"
proof -
  have h: "\<forall>db. names_reset (simple_names [''var'']) db =
      names_new (simple_names [''var'']) RESERVED_WORDS"
    by (simp add: simple_names_def)
  have p1: "generation_pass (simple_names [''var'']) counting_workspace
       (call_body (simple_names [''var''])) initial_state =
     Inr ([NL, NL] @ ''var count, var2;'' @ [NL, NL, NL] @ ''count2();'' @ [NL],
          \<lparr>definitions = None, functionNames = None, variableDB = Some []\<rparr>)"
    by code_simp
  have p2: "generation_pass (simple_names [''var'']) empty_workspace
       (call_body (simple_names [''var''])) initial_state =
     Inr ([NL, NL, NL] @ ''count();'' @ [NL],
          \<lparr>definitions = None, functionNames = None, variableDB = Some []\<rparr>)"
    by code_simp
  from passes_independent[OF h,
      where st = "\<lparr>definitions = None, functionNames = None, variableDB = Some []\<rparr>"
      and ws = empty_workspace and body = "call_body (simple_names [''var''])"] p2
  have "generation_pass (simple_names [''var'']) empty_workspace (call_body (simple_names [''var'']))
       \<lparr>definitions = None, functionNames = None, variableDB = Some []\<rparr> =
     Inr ([NL, NL, NL] @ ''count();'' @ [NL],
          \<lparr>definitions = None, functionNames = None, variableDB = Some []\<rparr>)"
    by simp
  with h p1 show ?thesis by blast
qed

end
